theory Spec2Isabelle
  imports Main "HOL-Library.Multiset"
begin

section \<open>Python values and exceptions\<close>

text \<open>
  The server (\<^verbatim>\<open>backend/server.py\<close>) is modelled by explicit state passing.
  A value of Python type \<^verbatim>\<open>str | None\<close> is a \<open>string option\<close>. Characters are the code
  points below 256. Every \<^verbatim>\<open>raise\<close> of the source is a value of \<open>exn\<close>.
\<close>

datatype exn =
    IntegrityError        \<comment> \<open>a UNIQUE constraint of the schema fails at flush\<close>
  | OperationalError      \<comment> \<open>the durable write itself fails\<close>
  | AttributeError        \<comment> \<open>attribute lookup on a value that has no such attribute\<close>
  | WebSocketDisconnect   \<comment> \<open>raised by \<^verbatim>\<open>receive_text\<close> and by a send when the peer has gone\<close>
  | ProgrammingError      \<comment> \<open>the database driver cannot bind a value\<close>
  | OverflowError         \<comment> \<open>an integer outside the 64-bit range of SQLite is bound\<close>
  | OSError               \<comment> \<open>a file system call fails\<close>
  | HTTPException nat     \<comment> \<open>\<^verbatim>\<open>HTTPException(status_code=...)\<close>\<close>
  | RuntimeError          \<comment> \<open>raised by \<^verbatim>\<open>FileResponse\<close> for a path that is not a file\<close>

text \<open>Truthiness of a \<^verbatim>\<open>str | None\<close>: \<^verbatim>\<open>None\<close> and the empty string are false.\<close>

definition truthy :: "string option \<Rightarrow> bool" where
  "truthy s = (case s of None \<Rightarrow> False | Some t \<Rightarrow> t \<noteq> [])"

text \<open>\<^verbatim>\<open>a or b\<close> on two values of type \<^verbatim>\<open>str | None\<close>.\<close>

definition py_or :: "string option \<Rightarrow> string option \<Rightarrow> string option" where
  "py_or a b = (if truthy a then a else b)"

text \<open>\<^verbatim>\<open>str.strip()\<close>: the white space characters of Python below code point 256.\<close>

definition is_space :: "char \<Rightarrow> bool" where
  "is_space c = (of_char c \<in> {9, 10, 11, 12, 13, 28, 29, 30, 31, 32, 133, 160 :: nat})"

definition strip :: "string \<Rightarrow> string" where
  "strip s = rev (dropWhile is_space (rev (dropWhile is_space s)))"

section \<open>The three relations (\<^verbatim>\<open>backend/db/models.py\<close>)\<close>

record device =
  dev_id :: nat
  device_fingerprint :: "string option"
  label :: "string option"
  user_agent :: "string option"
  ip_first :: "string option"
  ip_last :: "string option"
  first_seen :: nat
  last_seen :: nat
  active :: bool

record room =
  rm_id :: nat
  rm_name :: string
  rm_created_at :: nat

record message =
  msg_id :: nat
  msg_room_id :: nat
  msg_device_id :: "nat option"
  content_type :: string
  content :: "string option"
  file_ref :: "string option"
  ip_at_send :: "string option"
  ua_at_send :: "string option"
  created_at :: nat

text \<open>
  The database: the rows of each table in insertion order, the clock that
  \<^verbatim>\<open>datetime.utcnow()\<close> reads, and a schedule of storage faults: each commit takes the
  head of \<open>faults\<close>, and \<open>True\<close> makes that commit raise. The empty schedule is a
  storage layer that never fails.
\<close>

record db =
  devices :: "device list"
  rooms :: "room list"
  messages :: "message list"
  faults :: "bool list"
  clock :: nat

text \<open>An \<^verbatim>\<open>INTEGER PRIMARY KEY\<close> of SQLite: one more than the largest key in the table.\<close>

definition next_id :: "nat list \<Rightarrow> nat" where
  "next_id ids = Suc (fold max ids 0)"

text \<open>
  \<^verbatim>\<open>db.commit()\<close>: \<open>new\<close> is the database with the pending changes of the session
  applied. A failed commit leaves the rows as they were.
\<close>

definition db_commit :: "db \<Rightarrow> db \<Rightarrow> (exn + unit) \<times> db" where
  "db_commit old new =
     (case faults old of
        [] \<Rightarrow> (Inr (), new)
      | f # fs \<Rightarrow> if f then (Inl OperationalError, old\<lparr>faults := fs\<rparr>)
                  else (Inr (), new\<lparr>faults := fs\<rparr>))"

text \<open>\<^verbatim>\<open>device_fingerprint = Column(String(80), unique=True, nullable=True)\<close>: NULL never
  conflicts, every other value (the empty string too) does.\<close>

definition fingerprint_taken :: "db \<Rightarrow> string option \<Rightarrow> bool" where
  "fingerprint_taken d fp =
     (fp \<noteq> None \<and> find (\<lambda>x. device_fingerprint x = fp) (devices d) \<noteq> None)"

section \<open>Identity resolution: \<^verbatim>\<open>upsert_device\<close>\<close>

text \<open>The \<^verbatim>\<open>else\<close> branch of \<^verbatim>\<open>upsert_device\<close>: the changes made to a device that was found.\<close>

definition touch_device :: "device \<Rightarrow> string option \<Rightarrow> string option \<Rightarrow> string option \<Rightarrow> nat \<Rightarrow> device" where
  "touch_device dev lbl ip ua now =
     (let dev1 = (case lbl of
                    None \<Rightarrow> dev
                  | Some l \<Rightarrow> if l \<noteq> [] \<and> strip l \<noteq> [] \<and> Some l \<noteq> label dev
                              then dev\<lparr>label := Some (strip l)\<rparr> else dev)
      in dev1\<lparr>user_agent := py_or ua (user_agent dev1),
               ip_last := py_or ip (ip_last dev1),
               last_seen := now\<rparr>)"

definition upsert_device ::
  "db \<Rightarrow> string option \<Rightarrow> string option \<Rightarrow> string option \<Rightarrow> string option \<Rightarrow> (exn + device) \<times> db" where
  "upsert_device d fingerprint lbl ip ua =
     (let dev = (if truthy fingerprint
                 then find (\<lambda>x. device_fingerprint x = fingerprint) (devices d) else None);
          dev = (if dev = None \<and> truthy lbl
                 then find (\<lambda>x. label x = lbl) (devices d) else dev)
      in case dev of
           None \<Rightarrow>
             (let new = \<lparr>dev_id = next_id (map dev_id (devices d)),
                         device_fingerprint = fingerprint, label = lbl, user_agent = ua,
                         ip_first = ip, ip_last = ip,
                         first_seen = clock d, last_seen = clock d, active = True\<rparr>
              in if fingerprint_taken d fingerprint then (Inl IntegrityError, d)
                 else case db_commit d (d\<lparr>devices := devices d @ [new]\<rparr>) of
                        (Inl e, d') \<Rightarrow> (Inl e, d')
                      | (Inr _, d') \<Rightarrow> (Inr new, d'))
         | Some found \<Rightarrow>
             (let upd = touch_device found lbl ip ua (clock d)
              in case db_commit d
                        (d\<lparr>devices := map (\<lambda>x. if dev_id x = dev_id found then upd else x)
                                            (devices d)\<rparr>) of
                   (Inl e, d') \<Rightarrow> (Inl e, d')
                 | (Inr _, d') \<Rightarrow> (Inr upd, d')))"

section \<open>Room directory: \<^verbatim>\<open>ensure_room\<close>\<close>

definition ensure_room :: "db \<Rightarrow> string \<Rightarrow> (exn + room) \<times> db" where
  "ensure_room d name =
     (case find (\<lambda>r. rm_name r = name) (rooms d) of
        Some r \<Rightarrow> (Inr r, d)
      | None \<Rightarrow>
          (let new = \<lparr>rm_id = next_id (map rm_id (rooms d)), rm_name = name,
                      rm_created_at = clock d\<rparr>
           in case db_commit d (d\<lparr>rooms := rooms d @ [new]\<rparr>) of
                (Inl e, d') \<Rightarrow> (Inl e, d')
              | (Inr _, d') \<Rightarrow> (Inr new, d')))"

section \<open>Message log: append and history\<close>

text \<open>\<^verbatim>\<open>msg = Message(...); db.add(msg); db.commit(); db.refresh(msg)\<close>, the same four
  statements on every ingestion path. \<open>created_at\<close> takes the column default.\<close>

definition add_message ::
  "db \<Rightarrow> nat \<Rightarrow> nat \<Rightarrow> string \<Rightarrow> string option \<Rightarrow> string option \<Rightarrow> string option \<Rightarrow> string option
     \<Rightarrow> (exn + message) \<times> db" where
  "add_message d rid did ctype txt fref ip ua =
     (let new = \<lparr>msg_id = next_id (map msg_id (messages d)), msg_room_id = rid,
                 msg_device_id = Some did, content_type = ctype, content = txt,
                 file_ref = fref, ip_at_send = ip, ua_at_send = ua, created_at = clock d\<rparr>
      in case db_commit d (d\<lparr>messages := messages d @ [new]\<rparr>) of
           (Inl e, d') \<Rightarrow> (Inl e, d')
         | (Inr _, d') \<Rightarrow> (Inr new, d'))"

record message_out =
  out_id :: nat
  out_room :: string
  out_device_label :: "string option"
  out_ip :: "string option"
  out_content_type :: string
  out_content :: "string option"
  out_file_ref :: "string option"
  out_ts :: nat

text \<open>\<^verbatim>\<open>.order_by(Message.created_at.desc())\<close>. Rows with equal time stamps come in an
  order SQL leaves open; here in the reverse of their insertion order.\<close>

definition order_by_created_desc :: "message list \<Rightarrow> message list" where
  "order_by_created_desc ms = rev (sort_key created_at ms)"

text \<open>\<^verbatim>\<open>.limit(limit)\<close>: SQLite reads a negative LIMIT as no limit. The limit is bound as
  a 64-bit integer; \<open>room_history\<close> raises for one outside that range.\<close>

definition sql_limit :: "int \<Rightarrow> 'a list \<Rightarrow> 'a list" where
  "sql_limit n xs = (if n < 0 then xs else take (nat n) xs)"

text \<open>The left outer join of a message with its device: at most one device has the key.\<close>

definition join_device :: "db \<Rightarrow> message \<Rightarrow> message \<times> device option" where
  "join_device d m = (m, find (\<lambda>x. Some (dev_id x) = msg_device_id m) (devices d))"

definition to_out :: "room \<Rightarrow> message \<times> device option \<Rightarrow> message_out" where
  "to_out r row =
     (case row of (msg, dev) \<Rightarrow>
        \<lparr>out_id = msg_id msg, out_room = rm_name r,
         out_device_label = (case dev of None \<Rightarrow> None | Some x \<Rightarrow> label x),
         out_ip = ip_at_send msg, out_content_type = content_type msg,
         out_content = content msg, out_file_ref = file_ref msg,
         out_ts = created_at msg\<rparr>)"

definition room_history :: "db \<Rightarrow> string \<Rightarrow> int \<Rightarrow> exn + message_out list" where
  "room_history d room_name limit =
     (case find (\<lambda>r. rm_name r = room_name) (rooms d) of
        None \<Rightarrow> Inr []
      | Some r \<Rightarrow>
          if limit < - (2 ^ 63) \<or> 2 ^ 63 \<le> limit then Inl OverflowError
          else
            (let rows = sql_limit limit
                          (map (join_device d)
                             (order_by_created_desc
                                (filter (\<lambda>m. msg_room_id m = rm_id r) (messages d))))
             in Inr (map (to_out r) (rev rows))))"

section \<open>The room registry and the connections\<close>

type_synonym conn = nat

text \<open>The dictionary handed to \<^verbatim>\<open>json.dumps\<close> for a \<^verbatim>\<open>"msg"\<close> event, field by field;
  \<open>ev_ts\<close> is the time stamp whose \<^verbatim>\<open>isoformat()\<close> is sent.\<close>

record msg_event =
  ev_room :: string
  ev_device_id :: nat
  ev_device_label :: "string option"
  ev_device_ip :: "string option"
  ev_content_type :: string
  ev_content :: "string option"
  ev_file_ref :: "string option"
  ev_ts :: nat
  ev_id :: nat

text \<open>The frames the server builds: \<^verbatim>\<open>{"type": "presence", "room", "count"}\<close>, the
  \<^verbatim>\<open>"msg"\<close> event, and the \<^verbatim>\<open>"msg"\<close> event of \<^verbatim>\<open>upload_blob\<close>, which has a \<^verbatim>\<open>"mime"\<close> key.\<close>

datatype frame =
    Presence string nat
  | Msg msg_event
  | Msg_mime msg_event "string option"

text \<open>
  \<^verbatim>\<open>WebSocket.send_text\<close> is a coroutine function (the source awaits it in
  \<^verbatim>\<open>ws_room\<close>). Calling a coroutine function builds a coroutine object and runs no
  statement of its body; only \<^verbatim>\<open>await\<close> runs it.
\<close>

datatype coroutine = Send_text conn frame

datatype fs_op = Exists string | Write_bytes string | Read_file string

text \<open>
  The state of the process: the database, \<^verbatim>\<open>ROOM_CLIENTS\<close> (a Python set is the list of
  its elements, kept free of duplicates), the connections whose peer has gone, the
  frames each connection has been sent, the coroutine objects that were built and
  dropped without \<^verbatim>\<open>await\<close> (Python reports each one with a RuntimeWarning), and the
  file system under \<^verbatim>\<open>data/\<close>: its files, its directories and the log of every access.
\<close>

record server =
  store :: db
  ROOM_CLIENTS :: "string \<rightharpoonup> conn list"
  closed :: "conn set"
  inbox :: "conn \<Rightarrow> frame list"
  unawaited :: "coroutine list"
  files :: "string \<rightharpoonup> string"
  dirs :: "string list"
  fs_log :: "fs_op list"

text \<open>\<^verbatim>\<open>ROOM_CLIENTS.get(room, set())\<close>, \<^verbatim>\<open>set.add\<close> and \<^verbatim>\<open>len\<close>.\<close>

definition clients :: "server \<Rightarrow> string \<Rightarrow> conn list" where
  "clients st room = (case ROOM_CLIENTS st room of None \<Rightarrow> [] | Some s \<Rightarrow> s)"

definition set_add :: "conn \<Rightarrow> conn list \<Rightarrow> conn list" where
  "set_add ws s = (if ws \<in> set s then s else s @ [ws])"

definition len :: "conn list \<Rightarrow> nat" where
  "len s = length (remdups s)"

text \<open>\<^verbatim>\<open>ROOM_CLIENTS.get(room, set()).discard(ws)\<close>: on a room without entry the set
  that is changed is the fresh default, and the registry stays as it is.\<close>

definition discard_client :: "string \<Rightarrow> conn \<Rightarrow> server \<Rightarrow> server" where
  "discard_client room ws st =
     (case ROOM_CLIENTS st room of
        None \<Rightarrow> st
      | Some s \<Rightarrow> st\<lparr>ROOM_CLIENTS := (ROOM_CLIENTS st)(room \<mapsto> removeAll ws s)\<rparr>)"

text \<open>The call \<^verbatim>\<open>ws.send_text(data)\<close> itself: it binds the arguments and returns the
  coroutine object, and raises nothing.\<close>

definition send_text :: "conn \<Rightarrow> frame \<Rightarrow> exn + coroutine" where
  "send_text ws data = Inr (Send_text ws data)"

text \<open>\<^verbatim>\<open>await\<close> of that coroutine: the body runs, and the frame reaches the peer or the
  send raises.\<close>

fun await :: "coroutine \<Rightarrow> server \<Rightarrow> (exn + unit) \<times> server" where
  "await (Send_text ws data) st =
     (if ws \<in> closed st then (Inl WebSocketDisconnect, st)
      else (Inr (), st\<lparr>inbox := (inbox st)(ws := inbox st ws @ [data])\<rparr>))"

text \<open>\<^verbatim>\<open>await ws.send_text(data)\<close>.\<close>

definition await_send_text :: "conn \<Rightarrow> frame \<Rightarrow> server \<Rightarrow> (exn + unit) \<times> server" where
  "await_send_text ws data st =
     (case send_text ws data of Inl e \<Rightarrow> (Inl e, st) | Inr coro \<Rightarrow> await coro st)"

section \<open>Broadcast: \<^verbatim>\<open>_broadcast_room\<close>\<close>

text \<open>
  The first loop. Its body is the expression statement
  \<^verbatim>\<open>ws.send_text(json.dumps(payload))\<close> inside \<^verbatim>\<open>try\<close>: the call is made, its value (the
  coroutine object) is dropped, and there is no \<^verbatim>\<open>await\<close>. \<^verbatim>\<open>json.dumps\<close> succeeds on
  every frame the server builds (strings, integers and \<^verbatim>\<open>None\<close>).
\<close>

fun broadcast_loop :: "frame \<Rightarrow> conn list \<Rightarrow> conn list \<Rightarrow> server \<Rightarrow> conn list \<times> server" where
  "broadcast_loop payload [] dead st = (dead, st)"
| "broadcast_loop payload (ws # rest) dead st =
     (case send_text ws payload of
        Inr coro \<Rightarrow> broadcast_loop payload rest dead (st\<lparr>unawaited := unawaited st @ [coro]\<rparr>)
      | Inl e \<Rightarrow> broadcast_loop payload rest (dead @ [ws]) st)"

definition broadcast_room :: "string \<Rightarrow> frame \<Rightarrow> server \<Rightarrow> server" where
  "broadcast_room room payload st =
     (case broadcast_loop payload (clients st room) [] st of
        (dead, st1) \<Rightarrow> fold (discard_client room) dead st1)"

text \<open>
  The broadcast as the specification words it (4.5), for comparison with
  \<open>broadcast_room\<close>: the event is delivered to every subscribed connection, a failed
  send does not stop the others, the connections whose send failed are removed from
  the set afterwards, and nothing is raised.
\<close>

fun spec_broadcast_loop :: "frame \<Rightarrow> conn list \<Rightarrow> conn list \<Rightarrow> server \<Rightarrow> conn list \<times> server" where
  "spec_broadcast_loop payload [] dead st = (dead, st)"
| "spec_broadcast_loop payload (ws # rest) dead st =
     (case await_send_text ws payload st of
        (Inr _, st1) \<Rightarrow> spec_broadcast_loop payload rest dead st1
      | (Inl e, st1) \<Rightarrow> spec_broadcast_loop payload rest (dead @ [ws]) st1)"

definition spec_broadcast :: "string \<Rightarrow> frame \<Rightarrow> server \<Rightarrow> server" where
  "spec_broadcast room payload st =
     (case spec_broadcast_loop payload (clients st room) [] st of
        (dead, st1) \<Rightarrow> fold (discard_client room) dead st1)"

section \<open>HTTP ingestion: \<^verbatim>\<open>post_message\<close>\<close>

text \<open>What the handlers read of a request: \<^verbatim>\<open>request.client.host\<close> (absent when there is
  no client) and the \<^verbatim>\<open>user-agent\<close> header.\<close>

record request =
  client_host :: "string option"
  header_user_agent :: "string option"

definition resolve_ip :: "request \<Rightarrow> string option" where
  "resolve_ip rq = client_host rq"

text \<open>\<^verbatim>\<open>MessageIn\<close>, as the framework hands it to the handler after validation.\<close>

record message_in =
  mi_room :: string
  mi_content_type :: string
  mi_content :: "string option"
  mi_file_ref :: "string option"
  mi_fingerprint :: "string option"
  mi_label :: "string option"

text \<open>The \<^verbatim>\<open>"msg"\<close> dictionary built from the room, the device and the stored message.\<close>

definition msg_payload :: "room \<Rightarrow> device \<Rightarrow> string option \<Rightarrow> message \<Rightarrow> msg_event" where
  "msg_payload r dev ip msg =
     \<lparr>ev_room = rm_name r, ev_device_id = dev_id dev, ev_device_label = label dev,
      ev_device_ip = ip, ev_content_type = content_type msg, ev_content = content msg,
      ev_file_ref = file_ref msg, ev_ts = created_at msg, ev_id = msg_id msg\<rparr>"

text \<open>The result is the \<^verbatim>\<open>id\<close> of \<^verbatim>\<open>{"ok": True, "id": msg.id}\<close>, or the exception that
  leaves the handler.\<close>

definition post_message :: "message_in \<Rightarrow> request \<Rightarrow> server \<Rightarrow> (exn + nat) \<times> server" where
  "post_message payload rq st =
     (let ip = resolve_ip rq; ua = header_user_agent rq
      in case ensure_room (store st) (mi_room payload) of
           (Inl e, d1) \<Rightarrow> (Inl e, st\<lparr>store := d1\<rparr>)
         | (Inr r, d1) \<Rightarrow>
      (case upsert_device d1 (mi_fingerprint payload) (mi_label payload) ip ua of
           (Inl e, d2) \<Rightarrow> (Inl e, st\<lparr>store := d2\<rparr>)
         | (Inr dev, d2) \<Rightarrow>
      (case add_message d2 (rm_id r) (dev_id dev) (mi_content_type payload)
              (mi_content payload) (mi_file_ref payload) ip ua of
           (Inl e, d3) \<Rightarrow> (Inl e, st\<lparr>store := d3\<rparr>)
         | (Inr msg, d3) \<Rightarrow>
             (Inr (msg_id msg),
              broadcast_room (rm_name r) (Msg (msg_payload r dev ip msg)) (st\<lparr>store := d3\<rparr>)))))"

section \<open>The streaming endpoint: \<^verbatim>\<open>ws_room\<close>\<close>

text \<open>The values \<^verbatim>\<open>json.loads\<close> returns. A float is kept as what the code can tell of
  it: a finite one as \<open>Finite m e\<close> for the number m times 2 to the power e, and the
  four others by name.\<close>

datatype pyfloat = Finite int int | NegZero | PosInf | NegInf | NaN

datatype json =
    JNull
  | JBool bool
  | JInt int
  | JFloat pyfloat
  | JStr string
  | JArr "json list"
  | JObj "(string \<times> json) list"

text \<open>\<^verbatim>\<open>data.get(key)\<close>: a dictionary answers (\<^verbatim>\<open>None\<close> for a missing key), every other
  value has no attribute \<^verbatim>\<open>get\<close>.\<close>

fun py_get :: "json \<Rightarrow> string \<Rightarrow> exn + json" where
  "py_get (JObj kvs) k = Inr (case map_of kvs k of None \<Rightarrow> JNull | Some v \<Rightarrow> v)"
| "py_get _ k = Inl AttributeError"

text \<open>Truthiness of such a value, as \<^verbatim>\<open>if v:\<close> and \<^verbatim>\<open>v or w\<close> test it.\<close>

fun py_truthy :: "json \<Rightarrow> bool" where
  "py_truthy JNull = False"
| "py_truthy (JBool b) = b"
| "py_truthy (JInt n) = (n \<noteq> 0)"
| "py_truthy (JFloat x) = (case x of Finite m e \<Rightarrow> m \<noteq> 0 | NegZero \<Rightarrow> False | _ \<Rightarrow> True)"
| "py_truthy (JStr s) = (s \<noteq> [])"
| "py_truthy (JArr xs) = (xs \<noteq> [])"
| "py_truthy (JObj kvs) = (kvs \<noteq> [])"

definition of_text :: "string option \<Rightarrow> json" where
  "of_text s = (case s of None \<Rightarrow> JNull | Some t \<Rightarrow> JStr t)"

text \<open>
  The streaming endpoint hands the fields of a frame to \<^verbatim>\<open>upsert_device\<close> and to
  \<^verbatim>\<open>Message\<close> as they are, whatever their type. A value bound to a text column, in a
  comparison or in an INSERT, is NULL for \<^verbatim>\<open>None\<close> and the string for a \<^verbatim>\<open>str\<close>; for
  every other value the database driver decides: \<open>driver v\<close> is the exception it
  raises or the text the column then holds (and compares as).
\<close>

definition bind_text :: "(json \<Rightarrow> exn + string) \<Rightarrow> json \<Rightarrow> exn + string option" where
  "bind_text driver v =
     (case v of
        JNull \<Rightarrow> Inr None
      | JStr s \<Rightarrow> Inr (Some s)
      | _ \<Rightarrow> (case driver v of Inl e \<Rightarrow> Inl e | Inr t \<Rightarrow> Inr (Some t)))"

text \<open>\<^verbatim>\<open>db.scalar(select(Device).where(column == v))\<close>: the first device whose column
  equals the bound value; NULL equals nothing.\<close>

definition select_device ::
  "(json \<Rightarrow> exn + string) \<Rightarrow> (device \<Rightarrow> string option) \<Rightarrow> json \<Rightarrow> db \<Rightarrow> exn + device option" where
  "select_device driver col v d =
     (case bind_text driver v of
        Inl e \<Rightarrow> Inl e
      | Inr None \<Rightarrow> Inr None
      | Inr (Some t) \<Rightarrow> Inr (find (\<lambda>x. col x = Some t) (devices d)))"

text \<open>The \<^verbatim>\<open>else\<close> branch of \<^verbatim>\<open>upsert_device\<close> for any label: \<^verbatim>\<open>label.strip()\<close> is reached
  when the label is true, and only a \<^verbatim>\<open>str\<close> has that method.\<close>

definition touch_device_any ::
  "device \<Rightarrow> json \<Rightarrow> string option \<Rightarrow> string option \<Rightarrow> nat \<Rightarrow> exn + device" where
  "touch_device_any dev lbl ip ua now =
     (if py_truthy lbl
      then (case lbl of
              JStr l \<Rightarrow> Inr (touch_device dev (Some l) ip ua now)
            | _ \<Rightarrow> Inl AttributeError)
      else Inr (touch_device dev None ip ua now))"

text \<open>
  \<^verbatim>\<open>upsert_device\<close> on any fingerprint and label: the same statements as in
  \<open>upsert_device\<close>, which is this function at the types of its signature (lemma
  \<open>upsert_device_any_text\<close>). The INSERT binds the fingerprint and the label.
\<close>

definition upsert_device_any ::
  "(json \<Rightarrow> exn + string) \<Rightarrow> db \<Rightarrow> json \<Rightarrow> json \<Rightarrow> string option \<Rightarrow> string option
     \<Rightarrow> (exn + device) \<times> db" where
  "upsert_device_any driver d fingerprint lbl ip ua =
     (case (if py_truthy fingerprint
            then select_device driver device_fingerprint fingerprint d else Inr None) of
        Inl e \<Rightarrow> (Inl e, d)
      | Inr dev0 \<Rightarrow>
     (case (if dev0 = None \<and> py_truthy lbl
            then select_device driver label lbl d else Inr dev0) of
        Inl e \<Rightarrow> (Inl e, d)
      | Inr None \<Rightarrow>
          (case bind_text driver fingerprint of
             Inl e \<Rightarrow> (Inl e, d)
           | Inr fp \<Rightarrow>
          (case bind_text driver lbl of
             Inl e \<Rightarrow> (Inl e, d)
           | Inr l \<Rightarrow>
              (let new = \<lparr>dev_id = next_id (map dev_id (devices d)),
                          device_fingerprint = fp, label = l, user_agent = ua,
                          ip_first = ip, ip_last = ip,
                          first_seen = clock d, last_seen = clock d, active = True\<rparr>
               in if fingerprint_taken d fp then (Inl IntegrityError, d)
                  else case db_commit d (d\<lparr>devices := devices d @ [new]\<rparr>) of
                         (Inl e, d') \<Rightarrow> (Inl e, d')
                       | (Inr _, d') \<Rightarrow> (Inr new, d'))))
      | Inr (Some found) \<Rightarrow>
          (case touch_device_any found lbl ip ua (clock d) of
             Inl e \<Rightarrow> (Inl e, d)
           | Inr upd \<Rightarrow>
               (case db_commit d
                       (d\<lparr>devices := map (\<lambda>x. if dev_id x = dev_id found then upd else x)
                                           (devices d)\<rparr>) of
                  (Inl e, d') \<Rightarrow> (Inl e, d')
                | (Inr _, d') \<Rightarrow> (Inr upd, d')))))"

text \<open>The four statements of \<open>add_message\<close> on any content type, content and file
  reference: the INSERT binds them; \<^verbatim>\<open>content_type\<close> is not nullable.\<close>

definition add_message_any ::
  "(json \<Rightarrow> exn + string) \<Rightarrow> db \<Rightarrow> nat \<Rightarrow> nat \<Rightarrow> json \<Rightarrow> json \<Rightarrow> json \<Rightarrow> string option
     \<Rightarrow> string option \<Rightarrow> (exn + message) \<times> db" where
  "add_message_any driver d rid did ctype txt fref ip ua =
     (case bind_text driver ctype of
        Inl e \<Rightarrow> (Inl e, d)
      | Inr ct \<Rightarrow>
     (case bind_text driver txt of
        Inl e \<Rightarrow> (Inl e, d)
      | Inr c \<Rightarrow>
     (case bind_text driver fref of
        Inl e \<Rightarrow> (Inl e, d)
      | Inr fr \<Rightarrow>
     (case ct of
        None \<Rightarrow> (Inl IntegrityError, d)
      | Some t \<Rightarrow> add_message d rid did t c fr ip ua))))"

text \<open>How one step of the handler ends: the loop goes on, or an exception leaves it.\<close>

datatype outcome = Continue | Raised exn

text \<open>The body of \<^verbatim>\<open>if data.get("type") == "msg":\<close>;
  \<^verbatim>\<open>data.get("content_type") or "text"\<close> is the content type.\<close>

definition ws_message ::
  "(json \<Rightarrow> exn + string) \<Rightarrow> json \<Rightarrow> string \<Rightarrow> server \<Rightarrow> outcome \<times> server" where
  "ws_message driver data room_name st =
     (case (py_get data ''fingerprint'', py_get data ''label'', py_get data ''content_type'',
            py_get data ''content'', py_get data ''file_ref'') of
        (Inr jfp, Inr jlbl, Inr jct, Inr jc, Inr jfr) \<Rightarrow>
          (case upsert_device_any driver (store st) jfp jlbl None None of
             (Inl e, d1) \<Rightarrow> (Raised e, st\<lparr>store := d1\<rparr>)
           | (Inr dev, d1) \<Rightarrow>
          (case ensure_room d1 room_name of
             (Inl e, d2) \<Rightarrow> (Raised e, st\<lparr>store := d2\<rparr>)
           | (Inr room_row, d2) \<Rightarrow>
          (case add_message_any driver d2 (rm_id room_row) (dev_id dev)
                  (if py_truthy jct then jct else JStr ''text'') jc jfr None None of
             (Inl e, d3) \<Rightarrow> (Raised e, st\<lparr>store := d3\<rparr>)
           | (Inr msg, d3) \<Rightarrow>
               (Continue,
                broadcast_room (rm_name room_row)
                  (Msg (msg_payload room_row dev None msg)) (st\<lparr>store := d3\<rparr>)))))
      | _ \<Rightarrow> (Raised AttributeError, st))"

text \<open>One turn of \<^verbatim>\<open>while True:\<close> after \<^verbatim>\<open>receive_text\<close> has returned \<open>raw\<close>. \<open>loads\<close> is
  \<^verbatim>\<open>json.loads\<close>, with \<open>None\<close> for \<^verbatim>\<open>JSONDecodeError\<close>.\<close>

definition ws_frame ::
  "(string \<Rightarrow> json option) \<Rightarrow> (json \<Rightarrow> exn + string) \<Rightarrow> string \<Rightarrow> string \<Rightarrow> server
     \<Rightarrow> outcome \<times> server" where
  "ws_frame loads driver room_name raw st =
     (case loads raw of
        None \<Rightarrow> (Continue, st)
      | Some data \<Rightarrow>
          (case py_get data ''type'' of
             Inl e \<Rightarrow> (Raised e, st)
           | Inr t \<Rightarrow> if t = JStr ''msg'' then ws_message driver data room_name st
                      else (Continue, st)))"

text \<open>What \<^verbatim>\<open>receive_text\<close> yields: a text frame, or the peer has gone.\<close>

datatype recv = Text string | Disconnect

text \<open>The loop over the frames that arrive: the exception that leaves it, or \<open>None\<close>
  when the frames are used up and \<^verbatim>\<open>receive_text\<close> is waiting for the next one.\<close>

fun ws_loop :: "(string \<Rightarrow> json option) \<Rightarrow> (json \<Rightarrow> exn + string) \<Rightarrow> conn \<Rightarrow> string
                  \<Rightarrow> recv list \<Rightarrow> server \<Rightarrow> exn option \<times> server" where
  "ws_loop loads driver ws room_name [] st = (None, st)"
| "ws_loop loads driver ws room_name (Disconnect # rest) st =
     (Some WebSocketDisconnect, st\<lparr>closed := insert ws (closed st)\<rparr>)"
| "ws_loop loads driver ws room_name (Text raw # rest) st =
     (case ws_frame loads driver room_name raw st of
        (Continue, st1) \<Rightarrow> ws_loop loads driver ws room_name rest st1
      | (Raised e, st1) \<Rightarrow> (Some e, st1))"

text \<open>The \<^verbatim>\<open>finally\<close> block: the connection leaves the set, then the presence frame is
  sent to \<open>ws\<close>, and an exception of that send is dropped.\<close>

definition ws_finally :: "conn \<Rightarrow> string \<Rightarrow> server \<Rightarrow> server" where
  "ws_finally ws room_name st =
     (let st1 = discard_client room_name ws st
      in case await_send_text ws (Presence room_name (len (clients st1 room_name))) st1 of
           (Inl e, st2) \<Rightarrow> st2
         | (Inr _, st2) \<Rightarrow> st2)"

text \<open>How a run of the handler stands: waiting for a frame, returned, or ended by an
  exception.\<close>

datatype session = Waiting | Returned | Crashed exn

text \<open>A run of \<^verbatim>\<open>ws_room\<close> for the connection \<open>ws\<close> on the frames \<open>inputs\<close>, after
  \<^verbatim>\<open>await ws.accept()\<close> has succeeded. The runs of other connections interleave with it
  between its steps; each step is one of \<open>ws_frame\<close>, \<open>ws_finally\<close> and the first
  two statements here.\<close>

definition ws_room ::
  "(string \<Rightarrow> json option) \<Rightarrow> (json \<Rightarrow> exn + string) \<Rightarrow> conn \<Rightarrow> string \<Rightarrow> recv list
     \<Rightarrow> server \<Rightarrow> session \<times> server" where
  "ws_room loads driver ws room_name inputs st =
     (let st1 = st\<lparr>ROOM_CLIENTS := (ROOM_CLIENTS st)(room_name \<mapsto> set_add ws (clients st room_name))\<rparr>
      in case await_send_text ws (Presence room_name (len (clients st1 room_name))) st1 of
           (Inl e, st2) \<Rightarrow>
             (if e = WebSocketDisconnect then Returned else Crashed e, ws_finally ws room_name st2)
         | (Inr _, st2) \<Rightarrow>
             (case ws_loop loads driver ws room_name inputs st2 of
                (None, st3) \<Rightarrow> (Waiting, st3)
              | (Some e, st3) \<Rightarrow>
                  (if e = WebSocketDisconnect then Returned else Crashed e,
                   ws_finally ws room_name st3)))"

section \<open>Content store: uploads and retrieval\<close>

text \<open>String operations of Python used by this part: \<^verbatim>\<open>str.lower\<close> (on code points
  below 256), \<^verbatim>\<open>str.startswith\<close> and the substring test \<^verbatim>\<open>sub in s\<close>.\<close>

definition lower_char :: "char \<Rightarrow> char" where
  "lower_char c =
     (let n = (of_char c :: nat)
      in if (65 \<le> n \<and> n \<le> 90) \<or> (192 \<le> n \<and> n \<le> 222 \<and> n \<noteq> 215)
         then char_of (n + 32) else c)"

definition lower :: "string \<Rightarrow> string" where
  "lower s = map lower_char s"

fun starts_with :: "string \<Rightarrow> string \<Rightarrow> bool" where
  "starts_with s [] = True"
| "starts_with [] (y # ys) = False"
| "starts_with (x # xs) (y # ys) = (x = y \<and> starts_with xs ys)"

fun contains :: "string \<Rightarrow> string \<Rightarrow> bool" where
  "contains [] sub = (sub = [])"
| "contains (x # xs) sub = (starts_with (x # xs) sub \<or> contains xs sub)"

text \<open>\<^verbatim>\<open>s or ""\<close> for \<open>s\<close> of type \<^verbatim>\<open>str | None\<close>.\<close>

definition or_empty :: "string option \<Rightarrow> string" where
  "or_empty s = (case s of None \<Rightarrow> [] | Some t \<Rightarrow> t)"

definition CT_TO_EXT :: "(string \<times> string) list" where
  "CT_TO_EXT =
     [(''audio/ogg; codecs=opus'', ''ogg''),
      (''audio/ogg'', ''ogg''),
      (''audio/webm; codecs=opus'', ''webm''),
      (''audio/webm'', ''webm''),
      (''audio/mp4; codecs=opus'', ''m4a''),
      (''audio/mp4'', ''m4a''),
      (''audio/m4a'', ''m4a'')]"

definition EXT_TO_CT :: "(string \<times> string) list" where
  "EXT_TO_CT = [(''ogg'', ''audio/ogg''), (''webm'', ''audio/webm''), (''m4a'', ''audio/mp4'')]"

text \<open>What the handlers read of an \<^verbatim>\<open>UploadFile\<close>: the declared content type, the file
  name and the bytes \<^verbatim>\<open>await file.read()\<close> returns.\<close>

record upload_file =
  up_content_type :: "string option"
  up_filename :: "string option"
  up_raw :: string

definition pick_ext :: "upload_file \<Rightarrow> string" where
  "pick_ext upload =
     (let ct = strip (lower (or_empty (up_content_type upload)))
      in case map_of CT_TO_EXT ct of
           Some e \<Rightarrow> e
         | None \<Rightarrow>
             if starts_with ct ''audio/'' then
               (if contains ct ''webm'' then ''webm''
                else if contains ct ''ogg'' then ''ogg''
                else if contains ct ''mp4'' \<or> contains ct ''m4a'' then ''m4a''
                else ''webm'')
             else ''webm'')"

text \<open>\<^verbatim>\<open>_safe_key\<close>; the backslash is code point 92.\<close>

definition safe_key :: "string \<Rightarrow> exn + string" where
  "safe_key name =
     (let name = strip name
      in if name = [] \<or> contains name ''/'' \<or> contains name [CHR 0x5C] \<or> contains name ''..''
         then Inl (HTTPException 400) else Inr name)"

definition AUDIO_DIR :: string where
  "AUDIO_DIR = ''data/audio''"

definition FILES_DIR :: string where
  "FILES_DIR = ''data/files''"

text \<open>\<^verbatim>\<open>dir / key\<close> of pathlib for a relative \<open>key\<close>: the component \<^verbatim>\<open>.\<close> is dropped, so
  that the key \<^verbatim>\<open>.\<close> names the directory itself.\<close>

definition path_join :: "string \<Rightarrow> string \<Rightarrow> string" where
  "path_join dir key = (if key = ''.'' then dir else dir @ ''/'' @ key)"

text \<open>\<^verbatim>\<open>path.name\<close>: the last component.\<close>

definition path_name :: "string \<Rightarrow> string" where
  "path_name p = rev (takeWhile (\<lambda>c. c \<noteq> CHR ''/'') (rev p))"

text \<open>The components of a path, and the length of a name in bytes (UTF-8: two bytes
  for a code point from 128 on). A file system call on a path with a component longer
  than \<open>NAME_MAX\<close> bytes fails (ENAMETOOLONG).\<close>

fun split_path :: "string \<Rightarrow> string list" where
  "split_path [] = [[]]"
| "split_path (c # cs) =
     (if c = CHR ''/'' then [] # split_path cs
      else (case split_path cs of
              [] \<Rightarrow> [[c]]
            | w # ws \<Rightarrow> (c # w) # ws))"

definition utf8_length :: "string \<Rightarrow> nat" where
  "utf8_length s = sum_list (map (\<lambda>c. if (of_char c :: nat) < 128 then 1 else 2) s)"

definition NAME_MAX :: nat where
  "NAME_MAX = 255"

definition name_too_long :: "string \<Rightarrow> bool" where
  "name_too_long p = list_ex (\<lambda>w. NAME_MAX < utf8_length w) (split_path p)"

text \<open>\<^verbatim>\<open>path.exists()\<close>: true for a file and for a directory, false for a path that does
  not exist, and OSError for a name that is too long, which pathlib does not take for
  an absent file. \<^verbatim>\<open>path.write_bytes(raw)\<close> follows a successful \<^verbatim>\<open>exists()\<close>. Each
  access is logged.\<close>

definition path_exists :: "string \<Rightarrow> server \<Rightarrow> (exn + bool) \<times> server" where
  "path_exists p st =
     (let st1 = st\<lparr>fs_log := fs_log st @ [Exists p]\<rparr>
      in if name_too_long p then (Inl OSError, st1)
         else (Inr (p \<in> set (dirs st) \<or> files st p \<noteq> None), st1))"

definition write_bytes :: "string \<Rightarrow> string \<Rightarrow> server \<Rightarrow> server" where
  "write_bytes p raw st =
     st\<lparr>files := (files st)(p \<mapsto> raw), fs_log := fs_log st @ [Write_bytes p]\<rparr>"

text \<open>The store step of both uploads:
  \<^verbatim>\<open>dest = DIR / object_key\<close>, \<^verbatim>\<open>if not dest.exists(): dest.write_bytes(raw)\<close>.\<close>

definition put_blob :: "string \<Rightarrow> string \<Rightarrow> string \<Rightarrow> server \<Rightarrow> (exn + unit) \<times> server" where
  "put_blob dir object_key raw st =
     (let dest = path_join dir object_key
      in case path_exists dest st of
           (Inl e, st1) \<Rightarrow> (Inl e, st1)
         | (Inr True, st1) \<Rightarrow> (Inr (), st1)
         | (Inr False, st1) \<Rightarrow> (Inr (), write_bytes dest raw st1))"

text \<open>\<^verbatim>\<open>upload_voice\<close>. \<open>sha256\<close> is \<^verbatim>\<open>_sha256_bytes\<close> (the hex digest of hashlib). The
  result is the \<^verbatim>\<open>id\<close> and the \<^verbatim>\<open>object_key\<close> of the answer.\<close>

definition upload_voice ::
  "(string \<Rightarrow> string) \<Rightarrow> request \<Rightarrow> upload_file \<Rightarrow> string \<Rightarrow> string option \<Rightarrow> string option
     \<Rightarrow> server \<Rightarrow> (exn + nat \<times> string) \<times> server" where
  "upload_voice sha256 rq file room_name fingerprint lbl st =
     (let raw = up_raw file
      in if raw = [] then (Inl (HTTPException 400), st)
         else
           (let object_key = sha256 raw @ ''.'' @ pick_ext file;
                ip = resolve_ip rq; ua = header_user_agent rq
            in case put_blob AUDIO_DIR object_key raw st of
                 (Inl e, st0) \<Rightarrow> (Inl e, st0)
               | (Inr _, st0) \<Rightarrow>
            (case ensure_room (store st0) room_name of
                 (Inl e, d1) \<Rightarrow> (Inl e, st0\<lparr>store := d1\<rparr>)
               | (Inr r, d1) \<Rightarrow>
            (case upsert_device d1 fingerprint lbl ip ua of
                 (Inl e, d2) \<Rightarrow> (Inl e, st0\<lparr>store := d2\<rparr>)
               | (Inr dev, d2) \<Rightarrow>
            (case add_message d2 (rm_id r) (dev_id dev) ''voice'' None (Some object_key) ip ua of
                 (Inl e, d3) \<Rightarrow> (Inl e, st0\<lparr>store := d3\<rparr>)
               | (Inr msg, d3) \<Rightarrow>
                   (Inr (msg_id msg, object_key),
                    broadcast_room (rm_name r) (Msg (msg_payload r dev ip msg))
                      (st0\<lparr>store := d3\<rparr>)))))))"

text \<open>\<^verbatim>\<open>pick_ext_from_upload\<close>. \<open>guess_extension\<close> is \<^verbatim>\<open>mimetypes.guess_extension\<close> and
  \<open>path_suffix\<close> is \<^verbatim>\<open>Path(...).suffix\<close>; \<^verbatim>\<open>ext.lstrip(".")\<close> drops every leading dot.\<close>

definition pick_ext_from_upload ::
  "(string \<Rightarrow> string option) \<Rightarrow> (string \<Rightarrow> string) \<Rightarrow> upload_file \<Rightarrow> string" where
  "pick_ext_from_upload guess_extension path_suffix upload =
     (let ct = strip (lower (or_empty (up_content_type upload)));
          ext = or_empty (guess_extension ct);
          ext = (if ext = ''.jpe'' then ''.jpg'' else ext);
          ext = (if ext = [] then path_suffix (or_empty (up_filename upload)) else ext);
          ext = (if ext = [] then ''.bin'' else ext)
      in dropWhile (\<lambda>c. c = CHR ''.'') ext)"

definition classify_content_type :: "string option \<Rightarrow> string" where
  "classify_content_type ct =
     (let ct = lower (or_empty ct)
      in if starts_with ct ''image/'' then ''image''
         else if starts_with ct ''video/'' then ''video''
         else ''file'')"

text \<open>\<^verbatim>\<open>upload_blob\<close>; the result is \<^verbatim>\<open>id\<close>, \<^verbatim>\<open>object_key\<close> and \<^verbatim>\<open>category\<close>.\<close>

definition upload_blob ::
  "(string \<Rightarrow> string) \<Rightarrow> (string \<Rightarrow> string option) \<Rightarrow> (string \<Rightarrow> string) \<Rightarrow> request
     \<Rightarrow> upload_file \<Rightarrow> string \<Rightarrow> string option \<Rightarrow> string option
     \<Rightarrow> server \<Rightarrow> (exn + nat \<times> string \<times> string) \<times> server" where
  "upload_blob sha256 guess_extension path_suffix rq file room_name fingerprint lbl st =
     (let raw = up_raw file
      in if raw = [] then (Inl (HTTPException 400), st)
         else
           (let object_key = sha256 raw @ ''.''
                               @ pick_ext_from_upload guess_extension path_suffix file;
                content_category = classify_content_type (up_content_type file);
                ip = resolve_ip rq; ua = header_user_agent rq
            in case put_blob FILES_DIR object_key raw st of
                 (Inl e, st0) \<Rightarrow> (Inl e, st0)
               | (Inr _, st0) \<Rightarrow>
            (case ensure_room (store st0) room_name of
                 (Inl e, d1) \<Rightarrow> (Inl e, st0\<lparr>store := d1\<rparr>)
               | (Inr r, d1) \<Rightarrow>
            (case upsert_device d1 fingerprint lbl ip ua of
                 (Inl e, d2) \<Rightarrow> (Inl e, st0\<lparr>store := d2\<rparr>)
               | (Inr dev, d2) \<Rightarrow>
            (case add_message d2 (rm_id r) (dev_id dev) content_category (up_filename file)
                    (Some object_key) ip ua of
                 (Inl e, d3) \<Rightarrow> (Inl e, st0\<lparr>store := d3\<rparr>)
               | (Inr msg, d3) \<Rightarrow>
                   (Inr (msg_id msg, object_key, content_category),
                    broadcast_room (rm_name r)
                      (Msg_mime (msg_payload r dev ip msg) (up_content_type file))
                      (st0\<lparr>store := d3\<rparr>)))))))"

text \<open>\<^verbatim>\<open>FileResponse(path, media_type=..., filename=path.name)\<close>: the file is read when
  the response is sent, and a path that is not a file raises.\<close>

record file_response =
  fr_path :: string
  fr_media_type :: string
  fr_filename :: string
  fr_body :: string

definition send_file :: "string \<Rightarrow> string \<Rightarrow> server \<Rightarrow> (exn + file_response) \<times> server" where
  "send_file path media_type st =
     (let st1 = st\<lparr>fs_log := fs_log st @ [Read_file path]\<rparr>
      in case files st path of
           None \<Rightarrow> (Inl RuntimeError, st1)
         | Some body \<Rightarrow>
             (Inr \<lparr>fr_path = path, fr_media_type = media_type,
                   fr_filename = path_name path, fr_body = body\<rparr>, st1))"

definition get_audio :: "(string \<Rightarrow> string) \<Rightarrow> string \<Rightarrow> server \<Rightarrow> (exn + file_response) \<times> server" where
  "get_audio path_suffix object_key st =
     (case safe_key object_key of
        Inl e \<Rightarrow> (Inl e, st)
      | Inr key \<Rightarrow>
          (let path = path_join AUDIO_DIR key
           in case path_exists path st of
                (Inl e, st1) \<Rightarrow> (Inl e, st1)
              | (Inr False, st1) \<Rightarrow> (Inl (HTTPException 404), st1)
              | (Inr True, st1) \<Rightarrow>
                  (let ext = dropWhile (\<lambda>c. c = CHR ''.'') (lower (path_suffix path));
                       media_type = (case map_of EXT_TO_CT ext of
                                       None \<Rightarrow> ''audio/webm'' | Some m \<Rightarrow> m)
                   in send_file path media_type st1)))"

text \<open>\<^verbatim>\<open>get_blob\<close> repeats the test of \<^verbatim>\<open>_safe_key\<close> inline; \<open>guess_type\<close> is the first
  component of \<^verbatim>\<open>mimetypes.guess_type\<close>.\<close>

definition get_blob :: "(string \<Rightarrow> string option) \<Rightarrow> string \<Rightarrow> server \<Rightarrow> (exn + file_response) \<times> server" where
  "get_blob guess_type object_key st =
     (let key = strip object_key
      in if key = [] \<or> contains key ''/'' \<or> contains key [CHR 0x5C] \<or> contains key ''..''
         then (Inl (HTTPException 400), st)
         else
           (let path = path_join FILES_DIR key
            in case path_exists path st of
                 (Inl e, st1) \<Rightarrow> (Inl e, st1)
               | (Inr False, st1) \<Rightarrow> (Inl (HTTPException 404), st1)
               | (Inr True, st1) \<Rightarrow>
                   (let media_type = (case py_or (guess_type (path_name path))
                                             (Some ''application/octet-stream'') of
                                        Some m \<Rightarrow> m | None \<Rightarrow> ''application/octet-stream'')
                    in send_file path media_type st1)))"

section \<open>Concrete states\<close>

text \<open>A database with one anonymous device; one with a device that has the fingerprint
  \<^verbatim>\<open>A\<close> and the label \<^verbatim>\<open>phone\<close>, and the room \<^verbatim>\<open>alpha\<close>.\<close>

definition anon_db :: db where
  "anon_db =
     \<lparr>devices = [\<lparr>dev_id = 4, device_fingerprint = None, label = None, user_agent = None,
                   ip_first = None, ip_last = None, first_seen = 1, last_seen = 1,
                   active = True\<rparr>],
      rooms = [], messages = [], faults = [], clock = 7\<rparr>"

definition phone_db :: db where
  "phone_db =
     \<lparr>devices = [\<lparr>dev_id = 1, device_fingerprint = Some ''A'', label = Some ''phone'',
                   user_agent = None, ip_first = None, ip_last = None, first_seen = 1,
                   last_seen = 1, active = True\<rparr>],
      rooms = [\<lparr>rm_id = 1, rm_name = ''alpha'', rm_created_at = 0\<rparr>],
      messages = [], faults = [], clock = 5\<rparr>"

text \<open>A process in which the connections 1 and 2 are subscribed to \<^verbatim>\<open>alpha\<close>; the peer of
  connection 2 has gone, that of connection 1 has not.\<close>

definition alpha_hub :: server where
  "alpha_hub =
     \<lparr>store = phone_db, ROOM_CLIENTS = [''alpha'' \<mapsto> [1, 2]], closed = {2},
      inbox = (\<lambda>ws. []), unawaited = [],
      files = Map.empty, dirs = [AUDIO_DIR, FILES_DIR], fs_log = []\<rparr>"

definition hello :: frame where
  "hello =
     Msg \<lparr>ev_room = ''alpha'', ev_device_id = 1, ev_device_label = Some ''phone'',
          ev_device_ip = None, ev_content_type = ''text'', ev_content = Some ''hi'',
          ev_file_ref = None, ev_ts = 5, ev_id = 1\<rparr>"

text \<open>The values of \<^verbatim>\<open>json.loads\<close> on three texts: \<^verbatim>\<open>[]\<close> is an empty list, \<^verbatim>\<open>7\<close> a
  number, and \<^verbatim>\<open>hi\<close> is not JSON.\<close>

definition sample_loads :: "string \<Rightarrow> json option" where
  "sample_loads raw =
     (if raw = ''[]'' then Some (JArr [])
      else if raw = ''7'' then Some (JInt 7)
      else None)"

text \<open>A text message for \<^verbatim>\<open>alpha\<close> from the device with fingerprint \<^verbatim>\<open>A\<close>, the request
  that carries it, and the process \<open>alpha_hub\<close> with a storage layer whose second
  commit fails.\<close>

definition hi_in :: message_in where
  "hi_in = \<lparr>mi_room = ''alpha'', mi_content_type = ''text'', mi_content = Some ''hi'',
            mi_file_ref = None, mi_fingerprint = Some ''A'', mi_label = None\<rparr>"

definition lan_rq :: request where
  "lan_rq = \<lparr>client_host = Some ''10.0.0.1'', header_user_agent = None\<rparr>"

definition failing_hub :: server where
  "failing_hub = alpha_hub\<lparr>store := phone_db\<lparr>faults := [False, True]\<rparr>\<rparr>"

definition hi_frame :: json where
  "hi_frame = JObj [(''type'', JStr ''msg''), (''content'', JStr ''hi''),
                    (''fingerprint'', JStr ''A'')]"

text \<open>A message frame whose content is the number 5.\<close>

definition num_frame :: json where
  "num_frame = JObj [(''type'', JStr ''msg''), (''content'', JInt 5),
                     (''fingerprint'', JStr ''A'')]"

text \<open>A driver that refuses every value that is neither \<^verbatim>\<open>None\<close> nor a \<^verbatim>\<open>str\<close>; about
  those two no driver is asked.\<close>

definition strict_driver :: "json \<Rightarrow> exn + string" where
  "strict_driver v = Inl ProgrammingError"

text \<open>The same bytes declared as \<^verbatim>\<open>audio/ogg\<close> and as \<^verbatim>\<open>audio/webm\<close>.\<close>

definition ogg_note :: upload_file where
  "ogg_note = \<lparr>up_content_type = Some ''audio/ogg'', up_filename = Some ''note'', up_raw = ''RIFF''\<rparr>"

definition webm_note :: upload_file where
  "webm_note = \<lparr>up_content_type = Some ''audio/webm'', up_filename = Some ''note'', up_raw = ''RIFF''\<rparr>"

text \<open>Two uploads, and a function that stands in for SHA-256 in the closed theorems
  (the theorems themselves hold for every digest function).\<close>

definition toy_digest :: "string \<Rightarrow> string" where
  "toy_digest b = b"

definition voice_note :: upload_file where
  "voice_note = \<lparr>up_content_type = Some ''Audio/OGG'', up_filename = Some ''note.ogg'', up_raw = ''RIFF''\<rparr>"

definition picture :: upload_file where
  "picture = \<lparr>up_content_type = Some ''image/png'', up_filename = Some ''cat.png'', up_raw = ''PNG''\<rparr>"

text \<open>A database with three messages in \<^verbatim>\<open>alpha\<close>, one in \<^verbatim>\<open>beta\<close> and no room
  \<^verbatim>\<open>gamma\<close>.\<close>

definition hist_db :: db where
  "hist_db =
     \<lparr>devices = devices phone_db,
      rooms = [\<lparr>rm_id = 1, rm_name = ''alpha'', rm_created_at = 0\<rparr>,
               \<lparr>rm_id = 2, rm_name = ''beta'', rm_created_at = 0\<rparr>],
      messages =
        [\<lparr>msg_id = 1, msg_room_id = 1, msg_device_id = Some 1, content_type = ''text'',
          content = Some ''a'', file_ref = None, ip_at_send = None, ua_at_send = None,
          created_at = 3\<rparr>,
         \<lparr>msg_id = 2, msg_room_id = 1, msg_device_id = None, content_type = ''text'',
          content = Some ''b'', file_ref = None, ip_at_send = None, ua_at_send = None,
          created_at = 9\<rparr>,
         \<lparr>msg_id = 3, msg_room_id = 2, msg_device_id = Some 1, content_type = ''text'',
          content = Some ''c'', file_ref = None, ip_at_send = None, ua_at_send = None,
          created_at = 7\<rparr>,
         \<lparr>msg_id = 4, msg_room_id = 1, msg_device_id = Some 1, content_type = ''text'',
          content = Some ''d'', file_ref = None, ip_at_send = None, ua_at_send = None,
          created_at = 6\<rparr>],
      faults = [], clock = 10\<rparr>"

section \<open>Facts about keys\<close>

lemma fold_max_ge: "fold max ids (a::nat) \<ge> a"
  by (induction ids arbitrary: a) (auto intro: order_trans [OF max.cobounded2])

lemma fold_max_mem: "i \<in> set ids \<Longrightarrow> i \<le> fold max ids (a::nat)"
proof (induction ids arbitrary: a)
  case Nil
  then show ?case by simp
next
  case (Cons x xs)
  show ?case
  proof (cases "i = x")
    case True
    have "x \<le> max x a" by simp
    also have "\<dots> \<le> fold max xs (max x a)" by (rule fold_max_ge)
    finally show ?thesis using True by simp
  next
    case False
    with Cons.prems have "i \<in> set xs" by simp
    then show ?thesis using Cons.IH by simp
  qed
qed

lemma lt_next_id: "i \<in> set ids \<Longrightarrow> i < next_id ids"
  using fold_max_mem [of i ids 0] by (simp add: next_id_def)

lemma next_id_fresh: "next_id ids \<notin> set ids"
  using lt_next_id [of "next_id ids" ids] by auto

lemma Suc_next_id_fresh: "Suc (next_id ids) \<notin> set ids"
  using lt_next_id [of "Suc (next_id ids)" ids] by auto

lemma next_id_snoc: "next_id (ids @ [next_id ids]) = Suc (next_id ids)"
  by (simp add: next_id_def max_def fold_max_ge)

section \<open>Identity resolution\<close>

text \<open>
  C10. Called with neither a fingerprint nor a label, \<open>upsert_device\<close> looks nothing up:
  whatever the table holds, each call on a storage layer that does not fail appends a
  new row, and two successive calls return rows with two different keys, neither of
  which was in the table before.
\<close>

theorem upsert_device_anonymous_creates:
  assumes "faults d = []"
  shows "\<exists>d1 db1 d2 db2.
           upsert_device d None None ip ua = (Inr d1, db1)
         \<and> upsert_device db1 None None ip ua = (Inr d2, db2)
         \<and> devices db1 = devices d @ [d1]
         \<and> devices db2 = devices d @ [d1, d2]
         \<and> dev_id d1 \<notin> dev_id ` set (devices d)
         \<and> dev_id d2 \<notin> dev_id ` set (devices db1)
         \<and> dev_id d1 \<noteq> dev_id d2"
  using assms next_id_fresh [of "map dev_id (devices d)"]
    Suc_next_id_fresh [of "map dev_id (devices d)"]
  by (simp add: upsert_device_def truthy_def fingerprint_taken_def db_commit_def Let_def
      next_id_snoc)

theorem upsert_device_anonymous_creates_witness:
  "faults anon_db = [] \<and>
   (\<exists>d1 db1 d2 db2.
           upsert_device anon_db None None None None = (Inr d1, db1)
         \<and> upsert_device db1 None None None None = (Inr d2, db2)
         \<and> devices db1 = devices anon_db @ [d1]
         \<and> devices db2 = devices anon_db @ [d1, d2]
         \<and> dev_id d1 \<notin> dev_id ` set (devices anon_db)
         \<and> dev_id d2 \<notin> dev_id ` set (devices db1)
         \<and> dev_id d1 \<noteq> dev_id d2)"
  using upsert_device_anonymous_creates [of anon_db None None]
  by (simp add: anon_db_def)

lemma touch_device_keeps:
  "dev_id (touch_device dv lbl ip ua now) = dev_id dv
   \<and> device_fingerprint (touch_device dv lbl ip ua now) = device_fingerprint dv"
  by (simp add: touch_device_def Let_def split: option.splits)

lemma upsert_device_found:
  assumes "faults d = []"
    and "(if truthy fp then find (\<lambda>x. device_fingerprint x = fp) (devices d) else None) = Some dv"
  shows "upsert_device d fp lbl ip ua =
           (Inr (touch_device dv lbl ip ua (clock d)),
            d\<lparr>devices := map (\<lambda>x. if dev_id x = dev_id dv
                                    then touch_device dv lbl ip ua (clock d) else x) (devices d)\<rparr>)"
  using assms by (simp add: upsert_device_def db_commit_def Let_def)

text \<open>The fallback in general: a fingerprint that no device has, a label that some device
  has, and the call returns that device, touched, and adds no row.\<close>

lemma upsert_device_by_label:
  assumes "faults d = []"
    and "(if truthy fp then find (\<lambda>x. device_fingerprint x = fp) (devices d) else None) = None"
    and "truthy lbl"
    and "find (\<lambda>x. label x = lbl) (devices d) = Some dv"
  shows "upsert_device d fp lbl ip ua =
           (Inr (touch_device dv lbl ip ua (clock d)),
            d\<lparr>devices := map (\<lambda>x. if dev_id x = dev_id dv
                                    then touch_device dv lbl ip ua (clock d) else x) (devices d)\<rparr>)"
  using assms by (simp add: upsert_device_def db_commit_def Let_def)

lemma upsert_device_created:
  assumes "faults d = []"
    and "truthy fp"
    and "find (\<lambda>x. device_fingerprint x = fp) (devices d) = None"
    and "\<not> truthy lbl \<or> find (\<lambda>x. label x = lbl) (devices d) = None"
  shows "upsert_device d fp lbl ip ua =
           (Inr \<lparr>dev_id = next_id (map dev_id (devices d)),
                 device_fingerprint = fp, label = lbl, user_agent = ua,
                 ip_first = ip, ip_last = ip,
                 first_seen = clock d, last_seen = clock d, active = True\<rparr>,
            d\<lparr>devices := devices d @
               [\<lparr>dev_id = next_id (map dev_id (devices d)),
                 device_fingerprint = fp, label = lbl, user_agent = ua,
                 ip_first = ip, ip_last = ip,
                 first_seen = clock d, last_seen = clock d, active = True\<rparr>]\<rparr>)"
  using assms by (auto simp: upsert_device_def db_commit_def Let_def fingerprint_taken_def)

lemma find_after_touch:
  assumes "find P devs = Some dv" and "P upd" and "dev_id upd = dev_id dv"
  shows "\<exists>dv'. find P (map (\<lambda>x. if dev_id x = dev_id dv then upd else x) devs) = Some dv'
              \<and> dev_id dv' = dev_id dv"
  using assms
proof (induction devs)
  case Nil
  then show ?case by simp
next
  case (Cons x xs)
  then show ?case by (cases "P x") (auto split: if_splits)
qed

lemma filter_after_touch:
  assumes "dv \<in> set devs" and "distinct (map dev_id devs)" and "P upd \<longleftrightarrow> P dv"
  shows "length (filter P (map (\<lambda>x. if dev_id x = dev_id dv then upd else x) devs))
           = length (filter P devs)"
  using assms
proof (induction devs)
  case Nil
  then show ?case by simp
next
  case (Cons x xs)
  show ?case
  proof (cases "x = dv")
    case True
    then have "dev_id dv \<notin> dev_id ` set xs" using Cons.prems(2) by auto
    then have "map (\<lambda>x. if dev_id x = dev_id dv then upd else x) xs = xs"
      by (induction xs) auto
    then show ?thesis using True Cons.prems(3) by simp
  next
    case False
    then have "dv \<in> set xs" using Cons.prems(1) by simp
    moreover have "dev_id x \<noteq> dev_id dv" using Cons.prems(2) \<open>dv \<in> set xs\<close> by auto
    ultimately show ?thesis using Cons by simp
  qed
qed

lemma distinct_after_touch:
  assumes "distinct (map dev_id devs)" and "dev_id upd = dev_id dv"
  shows "map dev_id (map (\<lambda>x. if dev_id x = dev_id dv then upd else x) devs) = map dev_id devs"
  using assms by (induction devs) auto

lemma find_Some_mem: "find P xs = Some x \<Longrightarrow> x \<in> set xs \<and> P x"
  by (induction xs) (auto split: if_splits)

lemma find_None_filter: "find P xs = None \<Longrightarrow> filter P xs = []"
  by (induction xs) (auto split: if_splits)

lemma find_snoc_None: "find P xs = None \<Longrightarrow> P y \<Longrightarrow> find P (xs @ [y]) = Some y"
  by (induction xs) (auto split: if_splits)

lemma upsert_device_first_call:
  assumes nf: "faults d = []"
    and fp: "f \<noteq> []"
    and ids: "distinct (map dev_id (devices d))"
    and one: "length (filter (\<lambda>x. device_fingerprint x = Some f) (devices d)) \<le> 1"
    and nofb: "find (\<lambda>x. device_fingerprint x = Some f) (devices d) \<noteq> None
               \<or> \<not> truthy lbl \<or> find (\<lambda>x. label x = lbl) (devices d) = None"
  shows "\<exists>dev1 d1 dv1. upsert_device d (Some f) lbl ip ua = (Inr dev1, d1)
        \<and> faults d1 = []
        \<and> find (\<lambda>x. device_fingerprint x = Some f) (devices d1) = Some dv1
        \<and> dev_id dv1 = dev_id dev1
        \<and> distinct (map dev_id (devices d1))
        \<and> length (filter (\<lambda>x. device_fingerprint x = Some f) (devices d1)) = 1"
proof (cases "find (\<lambda>x. device_fingerprint x = Some f) (devices d)")
  case (Some dv)
  define upd where "upd = touch_device dv lbl ip ua (clock d)"
  define devs1 where "devs1 = map (\<lambda>x. if dev_id x = dev_id dv then upd else x) (devices d)"
  have tr: "truthy (Some f)" using fp by (simp add: truthy_def)
  have r: "upsert_device d (Some f) lbl ip ua = (Inr upd, d\<lparr>devices := devs1\<rparr>)"
    using upsert_device_found [OF nf, of "Some f" dv lbl ip ua] tr Some
    by (simp add: upd_def devs1_def)
  have mem: "dv \<in> set (devices d)" and pdv: "device_fingerprint dv = Some f"
    using find_Some_mem [OF Some] by simp_all
  have iu: "dev_id upd = dev_id dv" and pu: "device_fingerprint upd = Some f"
    using pdv by (simp_all add: upd_def touch_device_keeps)
  obtain dv1 where f1: "find (\<lambda>x. device_fingerprint x = Some f) devs1 = Some dv1"
    and i1: "dev_id dv1 = dev_id dv"
    using find_after_touch [where P = "\<lambda>x. device_fingerprint x = Some f", OF Some pu iu]
    unfolding devs1_def by blast
  have "filter (\<lambda>x. device_fingerprint x = Some f) (devices d) \<noteq> []"
    using mem pdv by (auto simp: filter_empty_conv)
  then have one': "length (filter (\<lambda>x. device_fingerprint x = Some f) (devices d)) = 1"
    using one by (cases "filter (\<lambda>x. device_fingerprint x = Some f) (devices d)") auto
  have cnt: "length (filter (\<lambda>x. device_fingerprint x = Some f) devs1) = 1"
    using filter_after_touch [where P = "\<lambda>x. device_fingerprint x = Some f", OF mem ids, of upd]
      pu pdv one' unfolding devs1_def by simp
  have "map dev_id devs1 = map dev_id (devices d)"
    unfolding devs1_def by (rule distinct_after_touch [OF ids iu])
  then have di: "distinct (map dev_id devs1)"
    using ids by simp
  have "upsert_device d (Some f) lbl ip ua = (Inr upd, d\<lparr>devices := devs1\<rparr>)
        \<and> faults (d\<lparr>devices := devs1\<rparr>) = []
        \<and> find (\<lambda>x. device_fingerprint x = Some f) (devices (d\<lparr>devices := devs1\<rparr>)) = Some dv1
        \<and> dev_id dv1 = dev_id upd
        \<and> distinct (map dev_id (devices (d\<lparr>devices := devs1\<rparr>)))
        \<and> length (filter (\<lambda>x. device_fingerprint x = Some f) (devices (d\<lparr>devices := devs1\<rparr>))) = 1"
    using r nf f1 i1 iu di cnt by simp
  then show ?thesis by blast
next
  case None
  define new where "new = \<lparr>dev_id = next_id (map dev_id (devices d)),
                 device_fingerprint = Some f, label = lbl, user_agent = ua,
                 ip_first = ip, ip_last = ip,
                 first_seen = clock d, last_seen = clock d, active = True\<rparr>"
  have tr: "truthy (Some f)" using fp by (simp add: truthy_def)
  have nl: "\<not> truthy lbl \<or> find (\<lambda>x. label x = lbl) (devices d) = None"
    using nofb None by simp
  have r: "upsert_device d (Some f) lbl ip ua = (Inr new, d\<lparr>devices := devices d @ [new]\<rparr>)"
    using upsert_device_created [OF nf tr None nl] by (simp add: new_def)
  have pn: "device_fingerprint new = Some f" and idn: "dev_id new = next_id (map dev_id (devices d))"
    by (simp_all add: new_def)
  have f1: "find (\<lambda>x. device_fingerprint x = Some f) (devices d @ [new]) = Some new"
    using None pn by (rule find_snoc_None)
  have cnt: "length (filter (\<lambda>x. device_fingerprint x = Some f) (devices d @ [new])) = 1"
    using find_None_filter [OF None] pn by simp
  have di: "distinct (map dev_id (devices d @ [new]))"
    using ids next_id_fresh [of "map dev_id (devices d)"] idn by simp
  have "upsert_device d (Some f) lbl ip ua = (Inr new, d\<lparr>devices := devices d @ [new]\<rparr>)
        \<and> faults (d\<lparr>devices := devices d @ [new]\<rparr>) = []
        \<and> find (\<lambda>x. device_fingerprint x = Some f) (devices (d\<lparr>devices := devices d @ [new]\<rparr>)) = Some new
        \<and> dev_id new = dev_id new
        \<and> distinct (map dev_id (devices (d\<lparr>devices := devices d @ [new]\<rparr>)))
        \<and> length (filter (\<lambda>x. device_fingerprint x = Some f) (devices (d\<lparr>devices := devices d @ [new]\<rparr>))) = 1"
    using r nf f1 di cnt by simp
  then show ?thesis by blast
qed

text \<open>Where the fingerprint lookup hits, or misses without a label match, two calls in
  sequence return the same device and leave one row with the fingerprint.\<close>

lemma upsert_device_twice_without_fallback:
  assumes nf: "faults d = []"
    and fp: "f \<noteq> []"
    and ids: "distinct (map dev_id (devices d))"
    and one: "length (filter (\<lambda>x. device_fingerprint x = Some f) (devices d)) \<le> 1"
    and nofb: "find (\<lambda>x. device_fingerprint x = Some f) (devices d) \<noteq> None
               \<or> \<not> truthy lbl \<or> find (\<lambda>x. label x = lbl) (devices d) = None"
  shows "\<exists>dev1 d1 dev2 d2.
            upsert_device d (Some f) lbl ip ua = (Inr dev1, d1)
          \<and> upsert_device d1 (Some f) lbl ip ua = (Inr dev2, d2)
          \<and> dev_id dev1 = dev_id dev2
          \<and> length (devices d2) = length (devices d1)
          \<and> length (filter (\<lambda>x. device_fingerprint x = Some f) (devices d2)) = 1"
proof -
  obtain dev1 d1 dv1 where
    r1: "upsert_device d (Some f) lbl ip ua = (Inr dev1, d1)" and
    nf1: "faults d1 = []" and
    f1: "find (\<lambda>x. device_fingerprint x = Some f) (devices d1) = Some dv1" and
    id1: "dev_id dv1 = dev_id dev1" and
    di1: "distinct (map dev_id (devices d1))" and
    c1: "length (filter (\<lambda>x. device_fingerprint x = Some f) (devices d1)) = 1"
    using upsert_device_first_call [OF nf fp ids one nofb, of ip ua] by blast
  define upd where "upd = touch_device dv1 lbl ip ua (clock d1)"
  define devs2 where "devs2 = map (\<lambda>x. if dev_id x = dev_id dv1 then upd else x) (devices d1)"
  have tr: "truthy (Some f)" using fp by (simp add: truthy_def)
  have r2: "upsert_device d1 (Some f) lbl ip ua = (Inr upd, d1\<lparr>devices := devs2\<rparr>)"
    using upsert_device_found [OF nf1, of "Some f" dv1 lbl ip ua] tr f1
    by (simp add: upd_def devs2_def)
  have mem: "dv1 \<in> set (devices d1)" and pdv: "device_fingerprint dv1 = Some f"
    using find_Some_mem [OF f1] by simp_all
  have iu: "dev_id upd = dev_id dv1" and pu: "device_fingerprint upd = Some f"
    using pdv by (simp_all add: upd_def touch_device_keeps)
  have c2: "length (filter (\<lambda>x. device_fingerprint x = Some f) devs2) = 1"
    using filter_after_touch [where P = "\<lambda>x. device_fingerprint x = Some f", OF mem di1, of upd]
      pu pdv c1 unfolding devs2_def by simp
  have l2: "length devs2 = length (devices d1)" by (simp add: devs2_def)
  have "upsert_device d (Some f) lbl ip ua = (Inr dev1, d1)
          \<and> upsert_device d1 (Some f) lbl ip ua = (Inr upd, d1\<lparr>devices := devs2\<rparr>)
          \<and> dev_id dev1 = dev_id upd
          \<and> length (devices (d1\<lparr>devices := devs2\<rparr>)) = length (devices d1)
          \<and> length (filter (\<lambda>x. device_fingerprint x = Some f) (devices (d1\<lparr>devices := devs2\<rparr>))) = 1"
    using r1 r2 id1 iu c2 l2 by simp
  then show ?thesis by blast
qed

text \<open>The empty string is a fingerprint for the UNIQUE constraint and none for the
  lookup: the first anonymous call with it creates a row, the second one fails.\<close>

lemma upsert_device_empty_fingerprint_twice:
  "\<exists>dev1 d1. upsert_device anon_db (Some []) None None None = (Inr dev1, d1)
      \<and> fst (upsert_device d1 (Some []) None None None) = Inl IntegrityError"
  by (simp add: upsert_device_def anon_db_def truthy_def db_commit_def fingerprint_taken_def
      next_id_def Let_def)

text \<open>On a fingerprint and a label of type \<^verbatim>\<open>str | None\<close> the function on any value is
  \<open>upsert_device\<close>, whatever the driver; likewise for the message.\<close>

lemma py_truthy_of_text: "py_truthy (of_text s) = truthy s"
  by (simp add: of_text_def truthy_def split: option.splits)

lemma bind_text_of_text: "bind_text driver (of_text s) = Inr s"
  by (simp add: bind_text_def of_text_def split: option.splits)

lemma select_device_of_text:
  "truthy s \<Longrightarrow> select_device driver col (of_text s) d = Inr (find (\<lambda>x. col x = s) (devices d))"
  by (cases s) (simp_all add: select_device_def bind_text_of_text truthy_def)

lemma touch_device_any_of_text:
  "touch_device_any dev (of_text lbl) ip ua now = Inr (touch_device dev lbl ip ua now)"
  by (cases lbl) (simp_all add: touch_device_any_def of_text_def touch_device_def)

lemma upsert_device_any_text:
  "upsert_device_any driver d (of_text fp) (of_text lbl) ip ua = upsert_device d fp lbl ip ua"
proof (cases "truthy fp")
  case True
  show ?thesis
  proof (cases "find (\<lambda>x. device_fingerprint x = fp) (devices d)")
    case None
    show ?thesis
    proof (cases "truthy lbl")
      case lt: True
      show ?thesis
        using True None lt
        by (simp add: upsert_device_any_def upsert_device_def py_truthy_of_text
            select_device_of_text bind_text_of_text touch_device_any_of_text Let_def
            split: option.splits)
    next
      case lf: False
      show ?thesis
        using True None lf
        by (simp add: upsert_device_any_def upsert_device_def py_truthy_of_text
            select_device_of_text bind_text_of_text touch_device_any_of_text Let_def)
    qed
  next
    case (Some dv)
    show ?thesis
      using True Some
      by (simp add: upsert_device_any_def upsert_device_def py_truthy_of_text
          select_device_of_text bind_text_of_text touch_device_any_of_text Let_def)
  qed
next
  case False
  show ?thesis
  proof (cases "truthy lbl")
    case lt: True
    show ?thesis
      using False lt
      by (simp add: upsert_device_any_def upsert_device_def py_truthy_of_text
          select_device_of_text bind_text_of_text touch_device_any_of_text Let_def
          split: option.splits)
  next
    case lf: False
    show ?thesis
      using False lf
      by (simp add: upsert_device_any_def upsert_device_def py_truthy_of_text
          select_device_of_text bind_text_of_text touch_device_any_of_text Let_def)
  qed
qed

lemma add_message_any_text:
  "add_message_any driver d rid did (JStr t) (of_text c) (of_text fr) ip ua
     = add_message d rid did t c fr ip ua"
proof -
  have "bind_text driver (JStr t) = Inr (Some t)" by (simp add: bind_text_def)
  then show ?thesis by (simp add: add_message_any_def bind_text_of_text)
qed

text \<open>
  C4. A call that supplies a fingerprint which no device has still matches an existing
  device by its label: with the device (1, fingerprint \<^verbatim>\<open>A\<close>, label \<^verbatim>\<open>phone\<close>) in the
  table, resolving fingerprint \<^verbatim>\<open>B\<close> with label \<^verbatim>\<open>phone\<close> returns device 1 and creates
  nothing. The comment at the fallback says it is only for a registration without
  fingerprint.
\<close>

theorem upsert_device_falls_back_to_label:
  "find (\<lambda>x. device_fingerprint x = Some ''B'') (devices phone_db) = None
   \<and> (\<exists>dev d'. upsert_device phone_db (Some ''B'') (Some ''phone'') None None = (Inr dev, d')
          \<and> dev_id dev = 1 \<and> device_fingerprint dev = Some ''A''
          \<and> map dev_id (devices d') = [1])"
  by (simp add: upsert_device_def phone_db_def truthy_def db_commit_def touch_device_def
      py_or_def Let_def)

text \<open>
  C5. Resolving twice with the fingerprint \<^verbatim>\<open>B\<close> and the label \<^verbatim>\<open>phone\<close> on that table
  returns device 1 both times, and afterwards no row has the fingerprint \<^verbatim>\<open>B\<close>.
\<close>

theorem upsert_device_twice_leaves_no_row:
  "\<exists>dev1 d1 dev2 d2.
       upsert_device phone_db (Some ''B'') (Some ''phone'') None None = (Inr dev1, d1)
     \<and> upsert_device d1 (Some ''B'') (Some ''phone'') None None = (Inr dev2, d2)
     \<and> dev_id dev1 = 1 \<and> dev_id dev2 = 1
     \<and> filter (\<lambda>x. device_fingerprint x = Some ''B'') (devices d2) = []"
  by (simp add: upsert_device_def phone_db_def truthy_def db_commit_def touch_device_def
      py_or_def Let_def)

section \<open>Broadcast\<close>

lemma broadcast_loop_eq:
  "broadcast_loop payload wss dead st =
     (dead, st\<lparr>unawaited := unawaited st @ map (\<lambda>ws. Send_text ws payload) wss\<rparr>)"
  by (induction wss arbitrary: st) (simp_all add: send_text_def)

lemma broadcast_room_eq:
  "broadcast_room room_name payload st =
     st\<lparr>unawaited := unawaited st @ map (\<lambda>ws. Send_text ws payload) (clients st room_name)\<rparr>"
  by (simp add: broadcast_room_def broadcast_loop_eq)

lemma spec_broadcast_loop_eq:
  "spec_broadcast_loop payload wss dead st =
     (dead @ filter (\<lambda>ws. ws \<in> closed st) wss,
      st\<lparr>inbox := (\<lambda>ws. inbox st ws @ replicate (count_list (filter (\<lambda>ws. ws \<notin> closed st) wss) ws) payload)\<rparr>)"
proof (induction wss arbitrary: dead st)
  case Nil
  then show ?case by simp
next
  case (Cons w wss)
  show ?case
  proof (cases "w \<in> closed st")
    case True
    then show ?thesis by (simp add: Cons await_send_text_def send_text_def)
  next
    case False
    then show ?thesis
      by (simp add: Cons await_send_text_def send_text_def fun_eq_iff replicate_app_Cons_same)
  qed
qed

lemma fold_discard_clients:
  "ROOM_CLIENTS st room = Some s \<Longrightarrow>
     clients (fold (discard_client room) dead st) room = filter (\<lambda>ws. ws \<notin> set dead) s
     \<and> inbox (fold (discard_client room) dead st) = inbox st"
proof (induction dead arbitrary: st s)
  case Nil
  then show ?case by (simp add: clients_def)
next
  case (Cons x xs)
  have "ROOM_CLIENTS (discard_client room x st) room = Some (removeAll x s)"
    using Cons.prems by (simp add: discard_client_def)
  from Cons.IH [OF this] show ?case
    using Cons.prems by (auto simp: discard_client_def removeAll_filter_not_eq intro: filter_cong)
qed

text \<open>The broadcast of the specification delivers to every live subscriber and removes
  the dead ones.\<close>

lemma spec_broadcast_delivers:
  assumes "ROOM_CLIENTS st room = Some s" and "distinct s"
  shows "clients (spec_broadcast room payload st) room = filter (\<lambda>ws. ws \<notin> closed st) s"
    and "ws \<in> set s \<Longrightarrow> ws \<notin> closed st \<Longrightarrow>
           inbox (spec_broadcast room payload st) ws = inbox st ws @ [payload]"
proof -
  have c: "clients st room = s" using assms(1) by (simp add: clients_def)
  show "clients (spec_broadcast room payload st) room = filter (\<lambda>ws. ws \<notin> closed st) s"
    using assms(1) c
    by (simp add: spec_broadcast_def spec_broadcast_loop_eq fold_discard_clients)
       (auto intro: filter_cong)
  assume "ws \<in> set s" "ws \<notin> closed st"
  then have "count_list (filter (\<lambda>ws. ws \<notin> closed st) s) ws = 1"
    using assms(2) by (induction s) auto
  then show "inbox (spec_broadcast room payload st) ws = inbox st ws @ [payload]"
    using assms(1) c
    by (simp add: spec_broadcast_def spec_broadcast_loop_eq fold_discard_clients)
qed

text \<open>
  C1. In \<open>alpha_hub\<close> the connections 1 (live) and 2 (dead) are subscribed to \<^verbatim>\<open>alpha\<close>.
  \<open>broadcast_room\<close> builds one coroutine object per subscriber and awaits none: the
  live connection is sent nothing, and the dead connection stays in the set. The
  awaited send, as \<^verbatim>\<open>ws_room\<close> writes it, delivers to connection 1 and raises on
  connection 2, and the broadcast of the specification delivers the event to
  connection 1 and removes connection 2.
\<close>

theorem broadcast_room_sends_nothing:
  "clients alpha_hub ''alpha'' = [1, 2] \<and> 1 \<notin> closed alpha_hub \<and> 2 \<in> closed alpha_hub
   \<and> inbox (broadcast_room ''alpha'' hello alpha_hub) 1 = []
   \<and> clients (broadcast_room ''alpha'' hello alpha_hub) ''alpha'' = [1, 2]
   \<and> unawaited (broadcast_room ''alpha'' hello alpha_hub) = [Send_text 1 hello, Send_text 2 hello]
   \<and> fst (await_send_text 1 hello alpha_hub) = Inr ()
   \<and> inbox (snd (await_send_text 1 hello alpha_hub)) 1 = [hello]
   \<and> fst (await_send_text 2 hello alpha_hub) = Inl WebSocketDisconnect
   \<and> inbox (spec_broadcast ''alpha'' hello alpha_hub) 1 = [hello]
   \<and> clients (spec_broadcast ''alpha'' hello alpha_hub) ''alpha'' = [1]"
  by (simp add: broadcast_room_eq spec_broadcast_def clients_def alpha_hub_def
      await_send_text_def send_text_def discard_client_def)

section \<open>Presence on leaving\<close>

text \<open>In every state, the \<^verbatim>\<open>finally\<close> block sends nothing to a connection other than
  the one that leaves, and builds no coroutine.\<close>

lemma ws_finally_others:
  "ws' \<noteq> ws \<Longrightarrow> inbox (ws_finally ws room_name st) ws' = inbox st ws'"
  by (simp add: ws_finally_def discard_client_def await_send_text_def send_text_def Let_def
      split: option.splits)

lemma ws_finally_unawaited:
  "unawaited (ws_finally ws room_name st) = unawaited st"
  by (simp add: ws_finally_def discard_client_def await_send_text_def send_text_def Let_def
      split: option.splits)

text \<open>
  C2. Connection 2 leaves \<^verbatim>\<open>alpha\<close> while connection 1 stays: the \<^verbatim>\<open>finally\<close> block removes
  connection 2 and sends the presence frame to connection 2 itself (the send fails and
  is dropped); connection 1, the remaining subscriber, is sent nothing. When the
  connection that leaves is still open (connection 1), it is the one that is sent the
  new count. A whole run of the handler for a third connection whose peer disconnects
  leaves the two others without any frame.
\<close>

theorem ws_finally_tells_only_the_leaver:
  "clients (ws_finally 2 ''alpha'' alpha_hub) ''alpha'' = [1]
   \<and> inbox (ws_finally 2 ''alpha'' alpha_hub) 1 = []
   \<and> inbox (ws_finally 2 ''alpha'' alpha_hub) 2 = []
   \<and> unawaited (ws_finally 2 ''alpha'' alpha_hub) = []
   \<and> clients (ws_finally 1 ''alpha'' alpha_hub) ''alpha'' = [2]
   \<and> inbox (ws_finally 1 ''alpha'' alpha_hub) 1 = [Presence ''alpha'' 1]
   \<and> fst (ws_room sample_loads driver 3 ''alpha'' [Disconnect] alpha_hub) = Returned
   \<and> clients (snd (ws_room sample_loads driver 3 ''alpha'' [Disconnect] alpha_hub)) ''alpha'' = [1, 2]
   \<and> inbox (snd (ws_room sample_loads driver 3 ''alpha'' [Disconnect] alpha_hub)) 1 = []
   \<and> inbox (snd (ws_room sample_loads driver 3 ''alpha'' [Disconnect] alpha_hub)) 3
        = [Presence ''alpha'' 3]"
  by (simp add: ws_room_def ws_finally_def discard_client_def clients_def alpha_hub_def
      await_send_text_def send_text_def len_def set_add_def Let_def)

section \<open>Frames that are not a message\<close>

lemma ws_frame_not_json:
  "loads raw = None \<Longrightarrow> ws_frame loads driver room_name raw st = (Continue, st)"
  by (simp add: ws_frame_def)

lemma ws_frame_not_dict:
  "loads raw = Some v \<Longrightarrow> \<forall>kvs. v \<noteq> JObj kvs \<Longrightarrow>
     ws_frame loads driver room_name raw st = (Raised AttributeError, st)"
  by (cases v) (auto simp add: ws_frame_def)

text \<open>
  C9. The text \<^verbatim>\<open>[]\<close> is valid JSON and not a dictionary: \<^verbatim>\<open>data.get\<close> raises
  AttributeError, which no handler of the loop catches. The run of the handler ends
  with that exception, the connection is taken out of the room, and the next frame is
  never read. A text that is not JSON at all is dropped and the loop goes on.
\<close>

theorem ws_frame_json_list_raises:
  "sample_loads ''[]'' = Some (JArr [])
   \<and> ws_frame sample_loads driver ''alpha'' ''[]'' alpha_hub = (Raised AttributeError, alpha_hub)
   \<and> fst (ws_room sample_loads driver 3 ''alpha'' [Text ''[]'', Text ''hi''] alpha_hub)
        = Crashed AttributeError
   \<and> clients (snd (ws_room sample_loads driver 3 ''alpha'' [Text ''[]'', Text ''hi''] alpha_hub)) ''alpha''
        = [1, 2]
   \<and> sample_loads ''hi'' = None
   \<and> ws_frame sample_loads driver ''alpha'' ''hi'' alpha_hub = (Continue, alpha_hub)
   \<and> fst (ws_room sample_loads driver 3 ''alpha'' [Text ''hi'', Text ''hi''] alpha_hub) = Waiting"
  by (simp add: ws_room_def ws_frame_def sample_loads_def ws_finally_def discard_client_def
      clients_def alpha_hub_def await_send_text_def send_text_def len_def set_add_def Let_def)

section \<open>Commit before broadcast\<close>

lemma db_commit_Inl:
  "db_commit old new = (Inl e, d') \<Longrightarrow> d' = old\<lparr>faults := tl (faults old)\<rparr>"
  by (auto simp: db_commit_def split: list.splits if_splits)

lemma db_commit_Inr:
  "db_commit old new = (Inr u, d') \<Longrightarrow>
     devices d' = devices new \<and> rooms d' = rooms new \<and> messages d' = messages new
     \<and> clock d' = clock new"
  by (auto simp: db_commit_def split: list.splits if_splits)

lemma ensure_room_messages:
  "ensure_room d name = (res, d') \<Longrightarrow> messages d' = messages d"
  by (auto simp: ensure_room_def Let_def split: option.splits prod.splits sum.splits
      dest!: db_commit_Inl db_commit_Inr)

lemma upsert_device_messages:
  "upsert_device d fp lbl ip ua = (res, d') \<Longrightarrow> messages d' = messages d"
  by (auto simp: upsert_device_def Let_def split: option.splits prod.splits sum.splits if_splits
      dest!: db_commit_Inl db_commit_Inr)

lemma add_message_Inl:
  "add_message d rid did ct c fr ip ua = (Inl e, d') \<Longrightarrow> messages d' = messages d"
  by (auto simp: add_message_def Let_def split: prod.splits sum.splits
      dest!: db_commit_Inl db_commit_Inr)

lemma add_message_Inr:
  "add_message d rid did ct c fr ip ua = (Inr msg, d') \<Longrightarrow>
     messages d' = messages d @ [msg] \<and> msg_id msg \<notin> msg_id ` set (messages d)"
  using next_id_fresh [of "map msg_id (messages d)"]
  by (auto simp: add_message_def Let_def split: prod.splits sum.splits
      dest!: db_commit_Inl db_commit_Inr)

lemma upsert_device_any_messages:
  "upsert_device_any driver d fp lbl ip ua = (res, d') \<Longrightarrow> messages d' = messages d"
  by (auto simp: upsert_device_any_def Let_def
      split: option.splits prod.splits sum.splits if_splits
      dest!: db_commit_Inl db_commit_Inr)

lemma add_message_any_Inl:
  "add_message_any driver d rid did ct c fr ip ua = (Inl e, d') \<Longrightarrow> messages d' = messages d"
  by (auto simp: add_message_any_def split: option.splits sum.splits dest!: add_message_Inl)

lemma add_message_any_Inr:
  "add_message_any driver d rid did ct c fr ip ua = (Inr msg, d') \<Longrightarrow>
     messages d' = messages d @ [msg] \<and> msg_id msg \<notin> msg_id ` set (messages d)"
  by (auto simp: add_message_any_def split: option.splits sum.splits dest!: add_message_Inr)

text \<open>The three steps every ingestion path goes through after it has its arguments.\<close>

lemma post_message_commit_first:
  "case post_message payload rq st of
     (Inl e, st') \<Rightarrow>
        messages (store st') = messages (store st)
      \<and> ROOM_CLIENTS st' = ROOM_CLIENTS st \<and> inbox st' = inbox st \<and> unawaited st' = unawaited st
   | (Inr i, st') \<Rightarrow>
        (\<exists>r dev msg d3.
            messages d3 = messages (store st) @ [msg] \<and> msg_id msg = i
          \<and> st' = broadcast_room (rm_name r) (Msg (msg_payload r dev (resolve_ip rq) msg))
                     (st\<lparr>store := d3\<rparr>))"
proof -
  obtain r1 d1 where a: "ensure_room (store st) (mi_room payload) = (r1, d1)"
    by (cases "ensure_room (store st) (mi_room payload)")
  have m1: "messages d1 = messages (store st)"
    using a by (rule ensure_room_messages)
  show ?thesis
  proof (cases r1)
    case (Inl e)
    then show ?thesis using a m1 by (simp add: post_message_def Let_def)
  next
    case r: (Inr r)
    obtain r2 d2 where b: "upsert_device d1 (mi_fingerprint payload) (mi_label payload)
        (resolve_ip rq) (header_user_agent rq) = (r2, d2)"
      by (cases "upsert_device d1 (mi_fingerprint payload) (mi_label payload)
        (resolve_ip rq) (header_user_agent rq)")
    have m2: "messages d2 = messages (store st)"
      using upsert_device_messages [OF b] m1 by simp
    show ?thesis
    proof (cases r2)
      case (Inl e)
      then show ?thesis using a r b m2 by (simp add: post_message_def Let_def)
    next
      case dev: (Inr dev)
      obtain r3 d3 where c: "add_message d2 (rm_id r) (dev_id dev) (mi_content_type payload)
          (mi_content payload) (mi_file_ref payload) (resolve_ip rq) (header_user_agent rq)
          = (r3, d3)"
        by (cases "add_message d2 (rm_id r) (dev_id dev) (mi_content_type payload)
          (mi_content payload) (mi_file_ref payload) (resolve_ip rq) (header_user_agent rq)")
      show ?thesis
      proof (cases r3)
        case (Inl e)
        then have "messages d3 = messages (store st)"
          using c m2 add_message_Inl by metis
        then show ?thesis
          using a r b dev c Inl by (simp add: post_message_def Let_def)
      next
        case msg: (Inr msg)
        have m3: "messages d3 = messages (store st) @ [msg]"
          using c msg m2 add_message_Inr by metis
        have "post_message payload rq st
                = (Inr (msg_id msg),
                   broadcast_room (rm_name r) (Msg (msg_payload r dev (resolve_ip rq) msg))
                     (st\<lparr>store := d3\<rparr>))"
          using a r b dev c msg by (simp add: post_message_def Let_def)
        then show ?thesis using m3 by auto
      qed
    qed
  qed
qed

lemma ws_message_commit_first:
  "case ws_message driver data room_name st of
     (Raised e, st') \<Rightarrow>
        messages (store st') = messages (store st)
      \<and> ROOM_CLIENTS st' = ROOM_CLIENTS st \<and> inbox st' = inbox st \<and> unawaited st' = unawaited st
   | (Continue, st') \<Rightarrow>
        (\<exists>r dev msg d3.
            messages d3 = messages (store st) @ [msg]
          \<and> st' = broadcast_room (rm_name r) (Msg (msg_payload r dev None msg))
                     (st\<lparr>store := d3\<rparr>))"
proof (cases "\<exists>kvs. data = JObj kvs")
  case False
  then have "py_get data ''fingerprint'' = Inl AttributeError"
    by (cases data) auto
  then show ?thesis by (simp add: ws_message_def)
next
  case True
  then obtain kvs where k: "data = JObj kvs" by blast
  obtain jfp jlbl jct jc jfr where g:
    "py_get data ''fingerprint'' = Inr jfp" "py_get data ''label'' = Inr jlbl"
    "py_get data ''content_type'' = Inr jct" "py_get data ''content'' = Inr jc"
    "py_get data ''file_ref'' = Inr jfr"
    using k by simp
  obtain r1 d1 where a: "upsert_device_any driver (store st) jfp jlbl None None = (r1, d1)"
    by (cases "upsert_device_any driver (store st) jfp jlbl None None")
  have m1: "messages d1 = messages (store st)"
    using a by (rule upsert_device_any_messages)
  show ?thesis
  proof (cases r1)
    case (Inl e)
    then show ?thesis using g a m1 by (simp add: ws_message_def)
  next
    case dev: (Inr dev)
    obtain r2 d2 where b: "ensure_room d1 room_name = (r2, d2)"
      by (cases "ensure_room d1 room_name")
    have m2: "messages d2 = messages (store st)"
      using ensure_room_messages [OF b] m1 by simp
    show ?thesis
    proof (cases r2)
      case (Inl e)
      then show ?thesis using g a dev b m2 by (simp add: ws_message_def)
    next
      case r: (Inr r)
      obtain r3 d3 where c: "add_message_any driver d2 (rm_id r) (dev_id dev)
          (if py_truthy jct then jct else JStr ''text'') jc jfr None None = (r3, d3)"
        by (cases "add_message_any driver d2 (rm_id r) (dev_id dev)
          (if py_truthy jct then jct else JStr ''text'') jc jfr None None")
      show ?thesis
      proof (cases r3)
        case (Inl e)
        then have "messages d3 = messages (store st)"
          using c m2 add_message_any_Inl by metis
        then show ?thesis
          using g a dev b r c Inl by (simp add: ws_message_def)
      next
        case msg: (Inr msg)
        have m3: "messages d3 = messages (store st) @ [msg]"
          using c msg m2 add_message_any_Inr by metis
        have "ws_message driver data room_name st
                = (Continue,
                   broadcast_room (rm_name r) (Msg (msg_payload r dev None msg))
                     (st\<lparr>store := d3\<rparr>))"
          using g a dev b r c msg by (simp add: ws_message_def)
        then show ?thesis using m3 by auto
      qed
    qed
  qed
qed

lemma ws_frame_commit_first:
  "case ws_frame loads driver room_name raw st of
     (Raised e, st') \<Rightarrow>
        messages (store st') = messages (store st)
      \<and> ROOM_CLIENTS st' = ROOM_CLIENTS st \<and> inbox st' = inbox st \<and> unawaited st' = unawaited st
   | (Continue, st') \<Rightarrow>
        st' = st
      \<or> (\<exists>r dev msg d3.
            messages d3 = messages (store st) @ [msg]
          \<and> st' = broadcast_room (rm_name r) (Msg (msg_payload r dev None msg))
                     (st\<lparr>store := d3\<rparr>))"
proof (cases "loads raw")
  case None
  then show ?thesis by (simp add: ws_frame_def)
next
  case (Some data)
  show ?thesis
  proof (cases "py_get data ''type''")
    case (Inl e)
    then show ?thesis using Some by (simp add: ws_frame_def)
  next
    case (Inr t)
    show ?thesis
    proof (cases "t = JStr ''msg''")
      case True
      then have "ws_frame loads driver room_name raw st = ws_message driver data room_name st"
        using Some Inr by (simp add: ws_frame_def)
      then show ?thesis
        using ws_message_commit_first [where driver = driver and data = data
            and room_name = room_name and st = st]
        by (auto split: prod.splits outcome.splits)
    next
      case False
      then show ?thesis using Some Inr by (simp add: ws_frame_def)
    qed
  qed
qed

lemma put_blob_hub:
  "store (snd (put_blob dir key raw st)) = store st
   \<and> ROOM_CLIENTS (snd (put_blob dir key raw st)) = ROOM_CLIENTS st
   \<and> inbox (snd (put_blob dir key raw st)) = inbox st
   \<and> unawaited (snd (put_blob dir key raw st)) = unawaited st
   \<and> dirs (snd (put_blob dir key raw st)) = dirs st"
  by (simp add: put_blob_def path_exists_def write_bytes_def Let_def split: bool.splits)

lemma upload_voice_commit_first:
  "case upload_voice digest rq upload room_name fp lbl st of
     (Inl e, st') \<Rightarrow>
        messages (store st') = messages (store st)
      \<and> ROOM_CLIENTS st' = ROOM_CLIENTS st \<and> inbox st' = inbox st \<and> unawaited st' = unawaited st
   | (Inr (i, key), st') \<Rightarrow>
        (\<exists>r dev msg d3.
            messages d3 = messages (store st) @ [msg] \<and> msg_id msg = i
          \<and> st' = broadcast_room (rm_name r) (Msg (msg_payload r dev (resolve_ip rq) msg))
                     ((snd (put_blob AUDIO_DIR key (up_raw upload) st))\<lparr>store := d3\<rparr>))"
proof (cases "up_raw upload = []")
  case True
  then show ?thesis by (simp add: upload_voice_def Let_def)
next
  case ne: False
  define key where "key = digest (up_raw upload) @ ''.'' @ pick_ext upload"
  obtain r0 st0 where p: "put_blob AUDIO_DIR key (up_raw upload) st = (r0, st0)"
    by (cases "put_blob AUDIO_DIR key (up_raw upload) st")
  have h0: "store st0 = store st" "ROOM_CLIENTS st0 = ROOM_CLIENTS st" "inbox st0 = inbox st"
    "unawaited st0 = unawaited st"
    using put_blob_hub [of AUDIO_DIR key "up_raw upload" st] p by simp_all
  show ?thesis
  proof (cases r0)
    case (Inl e)
    then show ?thesis using ne p h0 by (simp add: upload_voice_def Let_def key_def)
  next
    case ok: (Inr u)
    obtain r1 d1 where a: "ensure_room (store st0) room_name = (r1, d1)"
      by (cases "ensure_room (store st0) room_name")
    have m1: "messages d1 = messages (store st)"
      using ensure_room_messages [OF a] h0 by simp
    show ?thesis
    proof (cases r1)
      case (Inl e)
      then show ?thesis using ne p ok a m1 h0 by (simp add: upload_voice_def Let_def key_def)
    next
      case r: (Inr r)
      obtain r2 d2 where b: "upsert_device d1 fp lbl (resolve_ip rq) (header_user_agent rq)
          = (r2, d2)"
        by (cases "upsert_device d1 fp lbl (resolve_ip rq) (header_user_agent rq)")
      have m2: "messages d2 = messages (store st)"
        using upsert_device_messages [OF b] m1 by simp
      show ?thesis
      proof (cases r2)
        case (Inl e)
        then show ?thesis using ne p ok a r b m2 h0 by (simp add: upload_voice_def Let_def key_def)
      next
        case dev: (Inr dev)
        obtain r3 d3 where c: "add_message d2 (rm_id r) (dev_id dev) ''voice'' None
            (Some key) (resolve_ip rq) (header_user_agent rq) = (r3, d3)"
          by (cases "add_message d2 (rm_id r) (dev_id dev) ''voice'' None
            (Some key) (resolve_ip rq) (header_user_agent rq)")
        show ?thesis
        proof (cases r3)
          case (Inl e)
          then have "messages d3 = messages (store st)"
            using c m2 add_message_Inl by metis
          then show ?thesis
            using ne p ok a r b dev c Inl h0 by (simp add: upload_voice_def Let_def key_def)
        next
          case msg: (Inr msg)
          have m3: "messages d3 = messages (store st) @ [msg]"
            using c msg m2 add_message_Inr by metis
          have s0: "snd (put_blob AUDIO_DIR key (up_raw upload) st) = st0" using p by simp
          have "upload_voice digest rq upload room_name fp lbl st
                  = (Inr (msg_id msg, key),
                     broadcast_room (rm_name r) (Msg (msg_payload r dev (resolve_ip rq) msg)) (st0\<lparr>store := d3\<rparr>))"
            using ne p ok a r b dev c msg by (simp add: upload_voice_def Let_def key_def)
          then show ?thesis using m3 s0 by (auto simp: key_def)
        qed
      qed
    qed
  qed
qed

lemma upload_blob_commit_first:
  "case upload_blob digest guess_extension path_suffix rq upload room_name fp lbl st of
     (Inl e, st') \<Rightarrow>
        messages (store st') = messages (store st)
      \<and> ROOM_CLIENTS st' = ROOM_CLIENTS st \<and> inbox st' = inbox st \<and> unawaited st' = unawaited st
   | (Inr (i, key, category), st') \<Rightarrow>
        (\<exists>r dev msg d3.
            messages d3 = messages (store st) @ [msg] \<and> msg_id msg = i
          \<and> st' = broadcast_room (rm_name r)
                     (Msg_mime (msg_payload r dev (resolve_ip rq) msg) (up_content_type upload))
                     ((snd (put_blob FILES_DIR key (up_raw upload) st))\<lparr>store := d3\<rparr>))"
proof (cases "up_raw upload = []")
  case True
  then show ?thesis by (simp add: upload_blob_def Let_def)
next
  case ne: False
  define key where "key = digest (up_raw upload) @ ''.'' @ pick_ext_from_upload guess_extension path_suffix upload"
  obtain r0 st0 where p: "put_blob FILES_DIR key (up_raw upload) st = (r0, st0)"
    by (cases "put_blob FILES_DIR key (up_raw upload) st")
  have h0: "store st0 = store st" "ROOM_CLIENTS st0 = ROOM_CLIENTS st" "inbox st0 = inbox st"
    "unawaited st0 = unawaited st"
    using put_blob_hub [of FILES_DIR key "up_raw upload" st] p by simp_all
  show ?thesis
  proof (cases r0)
    case (Inl e)
    then show ?thesis using ne p h0 by (simp add: upload_blob_def Let_def key_def)
  next
    case ok: (Inr u)
    obtain r1 d1 where a: "ensure_room (store st0) room_name = (r1, d1)"
      by (cases "ensure_room (store st0) room_name")
    have m1: "messages d1 = messages (store st)"
      using ensure_room_messages [OF a] h0 by simp
    show ?thesis
    proof (cases r1)
      case (Inl e)
      then show ?thesis using ne p ok a m1 h0 by (simp add: upload_blob_def Let_def key_def)
    next
      case r: (Inr r)
      obtain r2 d2 where b: "upsert_device d1 fp lbl (resolve_ip rq) (header_user_agent rq)
          = (r2, d2)"
        by (cases "upsert_device d1 fp lbl (resolve_ip rq) (header_user_agent rq)")
      have m2: "messages d2 = messages (store st)"
        using upsert_device_messages [OF b] m1 by simp
      show ?thesis
      proof (cases r2)
        case (Inl e)
        then show ?thesis using ne p ok a r b m2 h0 by (simp add: upload_blob_def Let_def key_def)
      next
        case dev: (Inr dev)
        obtain r3 d3 where c: "add_message d2 (rm_id r) (dev_id dev) (classify_content_type (up_content_type upload)) (up_filename upload)
            (Some key) (resolve_ip rq) (header_user_agent rq) = (r3, d3)"
          by (cases "add_message d2 (rm_id r) (dev_id dev) (classify_content_type (up_content_type upload)) (up_filename upload)
            (Some key) (resolve_ip rq) (header_user_agent rq)")
        show ?thesis
        proof (cases r3)
          case (Inl e)
          then have "messages d3 = messages (store st)"
            using c m2 add_message_Inl by metis
          then show ?thesis
            using ne p ok a r b dev c Inl h0 by (simp add: upload_blob_def Let_def key_def)
        next
          case msg: (Inr msg)
          have m3: "messages d3 = messages (store st) @ [msg]"
            using c msg m2 add_message_Inr by metis
          have s0: "snd (put_blob FILES_DIR key (up_raw upload) st) = st0" using p by simp
          have "upload_blob digest guess_extension path_suffix rq upload room_name fp lbl st
                  = (Inr (msg_id msg, key, classify_content_type (up_content_type upload)),
                     broadcast_room (rm_name r) (Msg_mime (msg_payload r dev (resolve_ip rq) msg) (up_content_type upload)) (st0\<lparr>store := d3\<rparr>))"
            using ne p ok a r b dev c msg by (simp add: upload_blob_def Let_def key_def)
          then show ?thesis using m3 s0 by (auto simp: key_def)
        qed
      qed
    qed
  qed
qed

text \<open>
  C3. On each ingestion path (\<open>post_message\<close>, one frame of \<open>ws_room\<close>, \<open>upload_voice\<close>,
  \<open>upload_blob\<close>): when the path ends with an exception, the message table, the
  registry, the frames sent and the coroutines built are what they were, so nothing
  was broadcast; when it ends normally and has done anything, the final state is
  \<open>broadcast_room\<close> applied to a state whose message table already holds the new
  message with the key that is announced. A failed commit therefore never ends
  normally. The frame step is taken on every frame, whatever the types of its fields
  and whatever the database driver makes of them.
\<close>

theorem commit_before_broadcast:
  "(case post_message payload rq st of
     (Inl e, st') \<Rightarrow>
        messages (store st') = messages (store st)
      \<and> ROOM_CLIENTS st' = ROOM_CLIENTS st \<and> inbox st' = inbox st \<and> unawaited st' = unawaited st
   | (Inr i, st') \<Rightarrow>
        (\<exists>r dev msg d3.
            messages d3 = messages (store st) @ [msg] \<and> msg_id msg = i
          \<and> st' = broadcast_room (rm_name r) (Msg (msg_payload r dev (resolve_ip rq) msg))
                     (st\<lparr>store := d3\<rparr>)))
   \<and> (case ws_frame loads driver room_name raw st of
     (Raised e, st') \<Rightarrow>
        messages (store st') = messages (store st)
      \<and> ROOM_CLIENTS st' = ROOM_CLIENTS st \<and> inbox st' = inbox st \<and> unawaited st' = unawaited st
   | (Continue, st') \<Rightarrow>
        st' = st
      \<or> (\<exists>r dev msg d3.
            messages d3 = messages (store st) @ [msg]
          \<and> st' = broadcast_room (rm_name r) (Msg (msg_payload r dev None msg))
                     (st\<lparr>store := d3\<rparr>)))
   \<and> (case upload_voice digest rq upload room_name fp lbl st of
     (Inl e, st') \<Rightarrow>
        messages (store st') = messages (store st)
      \<and> ROOM_CLIENTS st' = ROOM_CLIENTS st \<and> inbox st' = inbox st \<and> unawaited st' = unawaited st
   | (Inr (i, key), st') \<Rightarrow>
        (\<exists>r dev msg d3.
            messages d3 = messages (store st) @ [msg] \<and> msg_id msg = i
          \<and> st' = broadcast_room (rm_name r) (Msg (msg_payload r dev (resolve_ip rq) msg))
                     ((snd (put_blob AUDIO_DIR key (up_raw upload) st))\<lparr>store := d3\<rparr>)))
   \<and> (case upload_blob digest guess_extension path_suffix rq upload room_name fp lbl st of
     (Inl e, st') \<Rightarrow>
        messages (store st') = messages (store st)
      \<and> ROOM_CLIENTS st' = ROOM_CLIENTS st \<and> inbox st' = inbox st \<and> unawaited st' = unawaited st
   | (Inr (i, key, category), st') \<Rightarrow>
        (\<exists>r dev msg d3.
            messages d3 = messages (store st) @ [msg] \<and> msg_id msg = i
          \<and> st' = broadcast_room (rm_name r)
                     (Msg_mime (msg_payload r dev (resolve_ip rq) msg) (up_content_type upload))
                     ((snd (put_blob FILES_DIR key (up_raw upload) st))\<lparr>store := d3\<rparr>)))"
  using post_message_commit_first [where payload = payload and rq = rq and st = st]
    ws_frame_commit_first [where loads = loads and driver = driver and room_name = room_name
      and raw = raw and st = st]
    upload_voice_commit_first [where digest = digest and rq = rq and upload = upload
      and room_name = room_name and fp = fp and lbl = lbl and st = st]
    upload_blob_commit_first [where digest = digest and guess_extension = guess_extension
      and path_suffix = path_suffix and rq = rq and upload = upload
      and room_name = room_name and fp = fp and lbl = lbl and st = st]
  by simp

lemmas eval_defs = post_message_def ws_frame_def ws_message_def upsert_device_any_def
  add_message_any_def select_device_def bind_text_def touch_device_any_def ensure_room_def
  upsert_device_def
  add_message_def db_commit_def next_id_def broadcast_room_eq clients_def touch_device_def
  truthy_def py_or_def fingerprint_taken_def resolve_ip_def msg_payload_def Let_def
  hi_in_def lan_rq_def failing_hub_def alpha_hub_def phone_db_def hi_frame_def

text \<open>With a storage layer whose commit of the message fails, both paths end with
  OperationalError, store no message and build no coroutine; with one that does not
  fail, message 1 is stored and one coroutine per subscriber is built. A frame whose
  content is a number ends with the exception of a driver that refuses it, without a
  broadcast, and is stored and then broadcast with a driver that takes it.\<close>

theorem commit_before_broadcast_witness:
  "fst (post_message hi_in lan_rq failing_hub) = Inl OperationalError
   \<and> messages (store (snd (post_message hi_in lan_rq failing_hub))) = []
   \<and> unawaited (snd (post_message hi_in lan_rq failing_hub)) = []
   \<and> fst (post_message hi_in lan_rq alpha_hub) = Inr 1
   \<and> map msg_id (messages (store (snd (post_message hi_in lan_rq alpha_hub)))) = [1]
   \<and> length (unawaited (snd (post_message hi_in lan_rq alpha_hub))) = 2
   \<and> fst (ws_frame (\<lambda>raw. Some hi_frame) strict_driver ''alpha'' ''x'' failing_hub) = Raised OperationalError
   \<and> messages (store (snd (ws_frame (\<lambda>raw. Some hi_frame) strict_driver ''alpha'' ''x'' failing_hub))) = []
   \<and> unawaited (snd (ws_frame (\<lambda>raw. Some hi_frame) strict_driver ''alpha'' ''x'' failing_hub)) = []
   \<and> fst (ws_frame (\<lambda>raw. Some hi_frame) strict_driver ''alpha'' ''x'' alpha_hub) = Continue
   \<and> map msg_id (messages (store (snd (ws_frame (\<lambda>raw. Some hi_frame) strict_driver ''alpha'' ''x'' alpha_hub)))) = [1]
   \<and> length (unawaited (snd (ws_frame (\<lambda>raw. Some hi_frame) strict_driver ''alpha'' ''x'' alpha_hub))) = 2
   \<and> fst (ws_frame (\<lambda>raw. Some num_frame) strict_driver ''alpha'' ''x'' alpha_hub)
        = Raised ProgrammingError
   \<and> unawaited (snd (ws_frame (\<lambda>raw. Some num_frame) strict_driver ''alpha'' ''x'' alpha_hub)) = []
   \<and> fst (ws_frame (\<lambda>raw. Some num_frame) (\<lambda>v. Inr ''5'') ''alpha'' ''x'' alpha_hub) = Continue
   \<and> map content (messages (store (snd (ws_frame (\<lambda>raw. Some num_frame) (\<lambda>v. Inr ''5'')
                                              ''alpha'' ''x'' alpha_hub))))
        = [Some ''5'']
   \<and> length (unawaited (snd (ws_frame (\<lambda>raw. Some num_frame) (\<lambda>v. Inr ''5'')
                                  ''alpha'' ''x'' alpha_hub))) = 2"
  using commit_before_broadcast [where payload = hi_in and rq = lan_rq and st = failing_hub
      and loads = "\<lambda>raw. Some hi_frame" and driver = strict_driver and room_name = "''alpha''" and raw = "''x''"]
    commit_before_broadcast [where payload = hi_in and rq = lan_rq and st = alpha_hub
      and loads = "\<lambda>raw. Some hi_frame" and driver = strict_driver and room_name = "''alpha''" and raw = "''x''"]
    commit_before_broadcast [where st = alpha_hub and loads = "\<lambda>raw. Some num_frame"
      and driver = strict_driver and room_name = "''alpha''" and raw = "''x''"]
    commit_before_broadcast [where st = alpha_hub and loads = "\<lambda>raw. Some num_frame"
      and driver = "\<lambda>v. Inr ''5''" and room_name = "''alpha''" and raw = "''x''"]
  by (simp add: eval_defs num_frame_def strict_driver_def)

section \<open>History\<close>

lemma sql_limit_nonneg: "0 \<le> n \<Longrightarrow> sql_limit n xs = take (nat n) xs"
  by (simp add: sql_limit_def)

lemma room_history_unknown:
  "find (\<lambda>r. rm_name r = room_name) (rooms d) = None \<Longrightarrow> room_history d room_name limit = Inr []"
  by (simp add: room_history_def)

lemma room_history_known:
  assumes "0 \<le> limit" and "limit < 2 ^ 63"
    and "find (\<lambda>r. rm_name r = room_name) (rooms d) = Some r"
  shows "room_history d room_name limit =
           Inr (map (\<lambda>m. to_out r (join_device d m))
             (drop (length (filter (\<lambda>m. msg_room_id m = rm_id r) (messages d)) - nat limit)
                (sort_key created_at (filter (\<lambda>m. msg_room_id m = rm_id r) (messages d)))))"
proof -
  have "\<not> limit < - (2 ^ 63)" using assms(1) by simp
  then show ?thesis
    using assms
    by (simp add: room_history_def sql_limit_nonneg order_by_created_desc_def Let_def
        take_map rev_map take_rev drop_map)
qed

lemma out_ts_to_out: "out_ts (to_out r (join_device d m)) = created_at m"
  by (simp add: to_out_def join_device_def)

text \<open>
  C8. For a name without room record \<open>room_history\<close> returns the empty list, whatever
  the limit. For a limit from 0 to 2^63 - 1 it returns at most \<open>limit\<close> rows, in
  ascending order of their time stamps; for a room that exists they are the rows of
  \<open>recent\<close>, where the messages of the room split into \<open>older\<close> and \<open>recent\<close>, \<open>recent\<close>
  has \<open>limit\<close> messages (all of them when the room has fewer) and no message of
  \<open>older\<close> is later than one of \<open>recent\<close>.
\<close>

theorem room_history_recent:
  "(find (\<lambda>r. rm_name r = room_name) (rooms d) = None \<longrightarrow>
      room_history d room_name limit = Inr [])
   \<and> (0 \<le> limit \<and> limit < 2 ^ 63 \<longrightarrow>
      (\<exists>rows. room_history d room_name limit = Inr rows
         \<and> length rows \<le> nat limit
         \<and> sorted (map out_ts rows)
         \<and> (\<forall>r. find (\<lambda>r. rm_name r = room_name) (rooms d) = Some r \<longrightarrow>
              (\<exists>older recent.
                  mset (older @ recent)
                    = mset (filter (\<lambda>m. msg_room_id m = rm_id r) (messages d))
                \<and> rows = map (\<lambda>m. to_out r (join_device d m)) recent
                \<and> length recent
                     = min (nat limit)
                         (length (filter (\<lambda>m. msg_room_id m = rm_id r) (messages d)))
                \<and> (\<forall>a \<in> set older. \<forall>b \<in> set recent. created_at a \<le> created_at b)))))"
proof (intro conjI impI)
  assume "find (\<lambda>r. rm_name r = room_name) (rooms d) = None"
  then show "room_history d room_name limit = Inr []" by (rule room_history_unknown)
next
  assume lim: "0 \<le> limit \<and> limit < 2 ^ 63"
  show "\<exists>rows. room_history d room_name limit = Inr rows
         \<and> length rows \<le> nat limit
         \<and> sorted (map out_ts rows)
         \<and> (\<forall>r. find (\<lambda>r. rm_name r = room_name) (rooms d) = Some r \<longrightarrow>
              (\<exists>older recent.
                  mset (older @ recent)
                    = mset (filter (\<lambda>m. msg_room_id m = rm_id r) (messages d))
                \<and> rows = map (\<lambda>m. to_out r (join_device d m)) recent
                \<and> length recent
                     = min (nat limit)
                         (length (filter (\<lambda>m. msg_room_id m = rm_id r) (messages d)))
                \<and> (\<forall>a \<in> set older. \<forall>b \<in> set recent. created_at a \<le> created_at b)))"
  proof (cases "find (\<lambda>r. rm_name r = room_name) (rooms d)")
    case None
    then have "room_history d room_name limit = Inr []" by (rule room_history_unknown)
    then show ?thesis using None by simp
  next
    case (Some r)
    define ms where "ms = filter (\<lambda>m. msg_room_id m = rm_id r) (messages d)"
    define k where "k = length ms - nat limit"
    define older where "older = take k (sort_key created_at ms)"
    define recent where "recent = drop k (sort_key created_at ms)"
    define rows where "rows = map (\<lambda>m. to_out r (join_device d m)) recent"
    have h: "room_history d room_name limit = Inr rows"
      using room_history_known [of limit room_name d r] lim Some
      by (simp add: rows_def recent_def k_def ms_def)
    have split: "older @ recent = sort_key created_at ms"
      by (simp add: older_def recent_def)
    have srt: "sorted (map created_at (older @ recent))"
      by (simp only: split sorted_sort_key)
    have len: "length recent = min (nat limit) (length ms)"
      by (simp add: recent_def k_def)
    have ms: "mset (older @ recent) = mset ms"
      by (simp only: split mset_sort)
    have ord: "\<forall>a \<in> set older. \<forall>b \<in> set recent. created_at a \<le> created_at b"
      using srt by (auto simp: sorted_append)
    have s2: "sorted (map out_ts rows)"
      using srt by (simp add: rows_def sorted_append comp_def out_ts_to_out)
    have l2: "length rows \<le> nat limit"
      using len by (simp add: rows_def)
    have inner: "\<exists>older recent.
                  mset (older @ recent) = mset ms
                \<and> rows = map (\<lambda>m. to_out r (join_device d m)) recent
                \<and> length recent = min (nat limit) (length ms)
                \<and> (\<forall>a \<in> set older. \<forall>b \<in> set recent. created_at a \<le> created_at b)"
      using ms len ord rows_def by blast
    show ?thesis
      using h l2 s2 inner Some unfolding ms_def by auto
  qed
qed

theorem room_history_recent_witness:
  "find (\<lambda>r. rm_name r = ''gamma'') (rooms hist_db) = None
   \<and> room_history hist_db ''gamma'' 2 = Inr []
   \<and> (0::int) \<le> 2 \<and> (2::int) < 2 ^ 63
   \<and> (\<exists>rows. room_history hist_db ''alpha'' 2 = Inr rows
         \<and> map out_id rows = [4, 2]
         \<and> map out_ts rows = [6, 9]
         \<and> map out_device_label rows = [Some ''phone'', None])
   \<and> (\<exists>rows. room_history hist_db ''alpha'' 5 = Inr rows \<and> map out_id rows = [1, 4, 2])"
  using room_history_recent [of "''gamma''" hist_db 2] room_history_recent [of "''alpha''" hist_db 2]
  by (simp add: room_history_def hist_db_def phone_db_def sql_limit_def order_by_created_desc_def
      join_device_def to_out_def Let_def)

text \<open>A negative limit is no limit, and the whole history of the room is returned: three
  rows for the limit -1. A limit of 2^63 raises.\<close>

theorem room_history_negative_limit:
  "(\<exists>rows. room_history hist_db ''alpha'' (- 1) = Inr rows
       \<and> map out_id rows = [1, 4, 2]
       \<and> \<not> int (length rows) \<le> - 1)
   \<and> room_history hist_db ''alpha'' (2 ^ 63) = Inl OverflowError"
  by (simp add: room_history_def hist_db_def phone_db_def sql_limit_def order_by_created_desc_def
      join_device_def to_out_def Let_def)

section \<open>Object keys\<close>

lemma starts_with_iff: "starts_with s sub \<longleftrightarrow> (\<exists>ss. s = sub @ ss)"
  by (induction s sub rule: starts_with.induct) auto

lemma contains_iff: "contains s sub \<longleftrightarrow> (\<exists>ps ss. s = ps @ sub @ ss)"
proof (induction s)
  case Nil
  then show ?case by auto
next
  case (Cons x xs)
  show ?case
  proof
    assume "contains (x # xs) sub"
    then consider "starts_with (x # xs) sub" | "contains xs sub" by auto
    then show "\<exists>ps ss. x # xs = ps @ sub @ ss"
    proof cases
      case 1
      then obtain ss where "x # xs = sub @ ss" by (auto simp: starts_with_iff)
      then have "x # xs = [] @ sub @ ss" by simp
      then show ?thesis by blast
    next
      case 2
      then obtain ps ss where "xs = ps @ sub @ ss" using Cons.IH by auto
      then have "x # xs = (x # ps) @ sub @ ss" by simp
      then show ?thesis by blast
    qed
  next
    assume "\<exists>ps ss. x # xs = ps @ sub @ ss"
    then obtain ps ss where e: "x # xs = ps @ sub @ ss" by auto
    show "contains (x # xs) sub"
    proof (cases ps)
      case Nil
      then have "starts_with (x # xs) sub" using e by (auto simp: starts_with_iff)
      then show ?thesis by simp
    next
      case (Cons p ps')
      then have "xs = ps' @ sub @ ss" using e by simp
      then have "contains xs sub" using Cons.IH by auto
      then show ?thesis by simp
    qed
  qed
qed

lemma contains_rev: "contains (rev s) (rev sub) = contains s sub"
proof -
  have "(\<exists>ps ss. rev s = ps @ rev sub @ ss) \<longleftrightarrow> (\<exists>ps ss. s = ps @ sub @ ss)"
  proof
    assume "\<exists>ps ss. rev s = ps @ rev sub @ ss"
    then obtain ps ss where "rev s = ps @ rev sub @ ss" by auto
    then have "rev (rev s) = rev (ps @ rev sub @ ss)" by simp
    then have "s = rev ss @ sub @ rev ps" by simp
    then show "\<exists>ps ss. s = ps @ sub @ ss" by blast
  next
    assume "\<exists>ps ss. s = ps @ sub @ ss"
    then obtain ps ss where "s = ps @ sub @ ss" by auto
    then have "rev s = rev ss @ rev sub @ rev ps" by simp
    then show "\<exists>ps ss. rev s = ps @ rev sub @ ss" by blast
  qed
  then show ?thesis by (simp add: contains_iff)
qed

lemma contains_dropWhile:
  "contains s (c # cs) \<Longrightarrow> \<not> P c \<Longrightarrow> contains (dropWhile P s) (c # cs)"
  by (induction s) auto

lemma contains_strip:
  assumes "contains s sub" and "sub \<noteq> []" and "\<not> is_space (hd sub)" and "\<not> is_space (last sub)"
  shows "contains (strip s) sub"
proof -
  obtain c cs where sub: "sub = c # cs" using assms(2) by (cases sub) auto
  have a: "contains (dropWhile is_space s) sub"
    using assms(1,3) sub contains_dropWhile [of s c cs is_space] by simp
  obtain b bs where rsub: "rev sub = b # bs" using assms(2) by (cases "rev sub") auto
  have "b = last sub" using rsub assms(2) by (metis last_rev list.sel(1) rev_rev_ident hd_rev)
  then have nb: "\<not> is_space b" using assms(4) by simp
  have "contains (rev (dropWhile is_space s)) (rev sub)"
    using a by (simp add: contains_rev)
  then have "contains (dropWhile is_space (rev (dropWhile is_space s))) (rev sub)"
    using nb rsub contains_dropWhile [of "rev (dropWhile is_space s)" b bs is_space] by simp
  then show ?thesis
    using contains_rev [of "dropWhile is_space (rev (dropWhile is_space s))" "rev sub"]
    by (simp add: strip_def)
qed

lemma not_space_dot: "\<not> is_space CHR ''.''" by (simp add: is_space_def)
lemma not_space_slash: "\<not> is_space CHR ''/''" by (simp add: is_space_def)
lemma not_space_backslash: "\<not> is_space (CHR 0x5C)" by (simp add: is_space_def)

lemma bad_key_stays_bad:
  assumes "contains key ''..'' \<or> contains key ''/'' \<or> contains key [CHR 0x5C]"
  shows "contains (strip key) ''..'' \<or> contains (strip key) ''/'' \<or> contains (strip key) [CHR 0x5C]"
  using assms contains_strip [of key "''..''"] contains_strip [of key "''/''"]
    contains_strip [of key "[CHR 0x5C]"]
  by (auto simp: not_space_dot not_space_slash not_space_backslash)

text \<open>A key that contains \<^verbatim>\<open>..\<close>, a slash or a backslash is answered with
  \<open>HTTPException 400\<close> by both handlers, and the state, with the log of file system
  accesses in it, is what it was.\<close>

lemma bad_keys_rejected:
  assumes "contains key ''..'' \<or> contains key ''/'' \<or> contains key [CHR 0x5C]"
  shows "get_audio path_suffix key st = (Inl (HTTPException 400), st)"
    and "get_blob guess_type key st = (Inl (HTTPException 400), st)"
proof -
  have b: "contains (strip key) ''..'' \<or> contains (strip key) ''/''
           \<or> contains (strip key) [CHR 0x5C]"
    using assms by (rule bad_key_stays_bad)
  then have "safe_key key = Inl (HTTPException 400)"
    by (auto simp: safe_key_def Let_def)
  then show "get_audio path_suffix key st = (Inl (HTTPException 400), st)"
    by (simp add: get_audio_def)
  show "get_blob guess_type key st = (Inl (HTTPException 400), st)"
    using b by (auto simp: get_blob_def Let_def)
qed

text \<open>A key that passes the test and names neither a file nor a directory, with a name
  the file system takes, is answered with \<open>HTTPException 404\<close> after the one existence
  test.\<close>

lemma absent_keys_not_found:
  assumes "safe_key key = Inr k"
  shows "\<not> name_too_long (path_join AUDIO_DIR k) \<Longrightarrow> files st (path_join AUDIO_DIR k) = None
           \<Longrightarrow> path_join AUDIO_DIR k \<notin> set (dirs st)
           \<Longrightarrow> get_audio path_suffix key st
                 = (Inl (HTTPException 404),
                    st\<lparr>fs_log := fs_log st @ [Exists (path_join AUDIO_DIR k)]\<rparr>)"
    and "\<not> name_too_long (path_join FILES_DIR k) \<Longrightarrow> files st (path_join FILES_DIR k) = None
           \<Longrightarrow> path_join FILES_DIR k \<notin> set (dirs st)
           \<Longrightarrow> get_blob guess_type key st
                 = (Inl (HTTPException 404),
                    st\<lparr>fs_log := fs_log st @ [Exists (path_join FILES_DIR k)]\<rparr>)"
proof -
  show "\<not> name_too_long (path_join AUDIO_DIR k) \<Longrightarrow> files st (path_join AUDIO_DIR k) = None
           \<Longrightarrow> path_join AUDIO_DIR k \<notin> set (dirs st)
           \<Longrightarrow> get_audio path_suffix key st
                 = (Inl (HTTPException 404),
                    st\<lparr>fs_log := fs_log st @ [Exists (path_join AUDIO_DIR k)]\<rparr>)"
    using assms by (simp add: get_audio_def path_exists_def Let_def)
  have "strip key = k \<and> \<not> (strip key = [] \<or> contains (strip key) ''/''
       \<or> contains (strip key) [CHR 0x5C] \<or> contains (strip key) ''..'')"
    using assms by (auto simp: safe_key_def Let_def split: if_splits)
  then show "\<not> name_too_long (path_join FILES_DIR k) \<Longrightarrow> files st (path_join FILES_DIR k) = None
           \<Longrightarrow> path_join FILES_DIR k \<notin> set (dirs st)
           \<Longrightarrow> get_blob guess_type key st
                 = (Inl (HTTPException 404),
                    st\<lparr>fs_log := fs_log st @ [Exists (path_join FILES_DIR k)]\<rparr>)"
    by (auto simp: get_blob_def path_exists_def Let_def)
qed

lemma name_too_long_replicate:
  "name_too_long (path_join AUDIO_DIR (replicate 256 CHR ''a''))
   \<and> name_too_long (path_join FILES_DIR (replicate 256 CHR ''a''))"
  by code_simp

text \<open>
  C7. The key \<^verbatim>\<open>.\<close> contains neither \<^verbatim>\<open>..\<close> nor a separator and passes the test of both
  handlers. No blob has that name; the path it gives is the storage directory itself,
  which exists, so neither handler answers 404: both go on to \<^verbatim>\<open>FileResponse\<close>, which
  raises for a path that is not a file. A key of 256 letters passes the test as well,
  and the existence test raises OSError.
\<close>

theorem dot_key_is_not_found_as_absent:
  "safe_key ''.'' = Inr ''.''
   \<and> files alpha_hub (path_join AUDIO_DIR ''.'') = None
   \<and> files alpha_hub (path_join FILES_DIR ''.'') = None
   \<and> fst (get_audio path_suffix ''.'' alpha_hub) = Inl RuntimeError
   \<and> fst (get_blob guess_type ''.'' alpha_hub) = Inl RuntimeError
   \<and> fst (get_audio path_suffix (replicate 256 CHR ''a'') alpha_hub) = Inl OSError
   \<and> fst (get_blob guess_type (replicate 256 CHR ''a'') alpha_hub) = Inl OSError
   \<and> fst (get_audio path_suffix ''h.ogg'' alpha_hub) = Inl (HTTPException 404)
   \<and> fst (get_blob guess_type ''h.ogg'' alpha_hub) = Inl (HTTPException 404)"
proof -
  have dot: "safe_key ''.'' = Inr ''.''" "strip ''.'' = ''.''"
    by (simp_all add: safe_key_def strip_def is_space_def Let_def)
  have ntl: "\<not> name_too_long (path_join AUDIO_DIR ''.'')" "\<not> name_too_long (path_join FILES_DIR ''.'')"
    "\<not> name_too_long (path_join AUDIO_DIR ''h.ogg'')" "\<not> name_too_long (path_join FILES_DIR ''h.ogg'')"
    by code_simp+
  have long: "strip (replicate 256 CHR ''a'') = replicate 256 CHR ''a''"
    "safe_key (replicate 256 CHR ''a'') = Inr (replicate 256 CHR ''a'')"
    by code_simp+
  have long2: "\<not> (strip (replicate 256 CHR ''a'') = []
      \<or> contains (strip (replicate 256 CHR ''a'')) ''/''
      \<or> contains (strip (replicate 256 CHR ''a'')) [CHR 0x5C]
      \<or> contains (strip (replicate 256 CHR ''a'')) ''..'')"
    by code_simp
  have ogg: "safe_key ''h.ogg'' = Inr ''h.ogg''" "strip ''h.ogg'' = ''h.ogg''"
    by (simp_all add: safe_key_def strip_def is_space_def Let_def)
  have a1: "fst (get_audio path_suffix ''.'' alpha_hub) = Inl RuntimeError"
    using dot ntl
    by (simp add: get_audio_def path_exists_def send_file_def path_join_def alpha_hub_def Let_def)
  have a2: "fst (get_blob guess_type ''.'' alpha_hub) = Inl RuntimeError"
    using dot ntl
    by (simp add: get_blob_def path_exists_def send_file_def path_join_def alpha_hub_def Let_def)
  have a3: "fst (get_audio path_suffix (replicate 256 CHR ''a'') alpha_hub) = Inl OSError"
    using long name_too_long_replicate
    by (simp add: get_audio_def path_exists_def Let_def)
  have a4: "fst (get_blob guess_type (replicate 256 CHR ''a'') alpha_hub) = Inl OSError"
    using long2 name_too_long_replicate
    by (simp add: get_blob_def path_exists_def Let_def long(1))
  have a5: "fst (get_audio path_suffix ''h.ogg'' alpha_hub) = Inl (HTTPException 404)"
    using ogg ntl
    by (simp add: get_audio_def path_exists_def path_join_def alpha_hub_def AUDIO_DIR_def
        FILES_DIR_def Let_def)
  have a6: "fst (get_blob guess_type ''h.ogg'' alpha_hub) = Inl (HTTPException 404)"
    using ogg ntl
    by (simp add: get_blob_def path_exists_def path_join_def alpha_hub_def AUDIO_DIR_def
        FILES_DIR_def Let_def)
  show ?thesis
    using dot(1) a1 a2 a3 a4 a5 a6 by (simp add: alpha_hub_def)
qed

section \<open>Content store\<close>

lemma broadcast_room_fs:
  "files (broadcast_room room_name payload st) = files st
   \<and> dirs (broadcast_room room_name payload st) = dirs st
   \<and> fs_log (broadcast_room room_name payload st) = fs_log st"
  by (simp add: broadcast_room_eq)

lemma upload_voice_fs:
  assumes "up_raw upload \<noteq> []"
  shows "files (snd (upload_voice digest rq upload room_name fp lbl st))
           = files (snd (put_blob AUDIO_DIR (digest (up_raw upload) @ ''.'' @ pick_ext upload)
                      (up_raw upload) st))
       \<and> dirs (snd (upload_voice digest rq upload room_name fp lbl st))
           = dirs (snd (put_blob AUDIO_DIR (digest (up_raw upload) @ ''.'' @ pick_ext upload)
                      (up_raw upload) st))
       \<and> fs_log (snd (upload_voice digest rq upload room_name fp lbl st))
           = fs_log (snd (put_blob AUDIO_DIR (digest (up_raw upload) @ ''.'' @ pick_ext upload)
                      (up_raw upload) st))"
  using assms
  by (simp add: upload_voice_def Let_def broadcast_room_fs split: prod.splits sum.splits)

lemma upload_voice_key:
  "fst (upload_voice digest rq upload room_name fp lbl st) = Inr (i, k) \<Longrightarrow>
     k = digest (up_raw upload) @ ''.'' @ pick_ext upload"
  by (auto simp: upload_voice_def Let_def split: prod.splits sum.splits if_splits)

lemma upload_blob_fs:
  assumes "up_raw upload \<noteq> []"
  shows "files (snd (upload_blob digest ge ps rq upload room_name fp lbl st))
           = files (snd (put_blob FILES_DIR
                      (digest (up_raw upload) @ ''.'' @ pick_ext_from_upload ge ps upload)
                      (up_raw upload) st))
       \<and> dirs (snd (upload_blob digest ge ps rq upload room_name fp lbl st))
           = dirs (snd (put_blob FILES_DIR
                      (digest (up_raw upload) @ ''.'' @ pick_ext_from_upload ge ps upload)
                      (up_raw upload) st))
       \<and> fs_log (snd (upload_blob digest ge ps rq upload room_name fp lbl st))
           = fs_log (snd (put_blob FILES_DIR
                      (digest (up_raw upload) @ ''.'' @ pick_ext_from_upload ge ps upload)
                      (up_raw upload) st))"
  using assms
  by (simp add: upload_blob_def Let_def broadcast_room_fs split: prod.splits sum.splits)

lemma upload_blob_key:
  "fst (upload_blob digest ge ps rq upload room_name fp lbl st) = Inr (i, k, c) \<Longrightarrow>
     k = digest (up_raw upload) @ ''.'' @ pick_ext_from_upload ge ps upload"
  by (auto simp: upload_blob_def Let_def split: prod.splits sum.splits if_splits)

lemma put_blob_present:
  "\<not> name_too_long (path_join dir key) \<Longrightarrow>
     files (snd (put_blob dir key raw st)) (path_join dir key) \<noteq> None
     \<or> path_join dir key \<in> set (dirs (snd (put_blob dir key raw st)))"
  by (auto simp: put_blob_def path_exists_def write_bytes_def Let_def split: bool.splits)

lemma put_blob_skip:
  "files st (path_join dir key) \<noteq> None \<or> path_join dir key \<in> set (dirs st) \<Longrightarrow>
     files (snd (put_blob dir key raw st)) = files st
     \<and> fs_log (snd (put_blob dir key raw st)) = fs_log st @ [Exists (path_join dir key)]"
  by (auto simp: put_blob_def path_exists_def Let_def)

lemma put_blob_too_long:
  "name_too_long (path_join dir key) \<Longrightarrow>
     files (snd (put_blob dir key raw st)) = files st
     \<and> fs_log (snd (put_blob dir key raw st)) = fs_log st @ [Exists (path_join dir key)]"
  by (simp add: put_blob_def path_exists_def Let_def)

lemma put_blob_twice:
  assumes "files st1 = files (snd (put_blob dir key raw st))"
    and "dirs st1 = dirs (snd (put_blob dir key raw st))"
  shows "files (snd (put_blob dir key raw' st1)) = files st1
       \<and> fs_log (snd (put_blob dir key raw' st1)) = fs_log st1 @ [Exists (path_join dir key)]"
proof (cases "name_too_long (path_join dir key)")
  case True
  then show ?thesis by (rule put_blob_too_long)
next
  case False
  have "files st1 (path_join dir key) \<noteq> None \<or> path_join dir key \<in> set (dirs st1)"
    using put_blob_present [OF False, of raw st] assms by simp
  then show ?thesis by (rule put_blob_skip)
qed

text \<open>
  C6. Two uploads in sequence of the same non-empty bytes for which the same extension
  is picked (in particular the same upload twice): each answer that carries an object
  key carries the digest of the bytes, a dot and that extension; the second upload
  leaves the files as they are, and its only access to the file system is the
  existence test, so nothing is written. This holds for \<open>upload_voice\<close> and for
  \<open>upload_blob\<close>, whatever the database does.
\<close>

theorem content_store_put_idempotent:
  assumes "up_raw u1 = up_raw u2" and "up_raw u1 \<noteq> []"
  shows
   "(pick_ext u1 = pick_ext u2 \<longrightarrow>
      (let key = digest (up_raw u1) @ ''.'' @ pick_ext u1;
           r1 = upload_voice digest rq1 u1 room1 fp1 lbl1 st;
           r2 = upload_voice digest rq2 u2 room2 fp2 lbl2 (snd r1)
       in (\<forall>i k. fst r1 = Inr (i, k) \<longrightarrow> k = key)
        \<and> (\<forall>i k. fst r2 = Inr (i, k) \<longrightarrow> k = key)
        \<and> files (snd r2) = files (snd r1)
        \<and> fs_log (snd r2) = fs_log (snd r1) @ [Exists (path_join AUDIO_DIR key)]))
  \<and> (pick_ext_from_upload ge ps u1 = pick_ext_from_upload ge ps u2 \<longrightarrow>
      (let key = digest (up_raw u1) @ ''.'' @ pick_ext_from_upload ge ps u1;
           r1 = upload_blob digest ge ps rq1 u1 room1 fp1 lbl1 st;
           r2 = upload_blob digest ge ps rq2 u2 room2 fp2 lbl2 (snd r1)
       in (\<forall>i k c. fst r1 = Inr (i, k, c) \<longrightarrow> k = key)
        \<and> (\<forall>i k c. fst r2 = Inr (i, k, c) \<longrightarrow> k = key)
        \<and> files (snd r2) = files (snd r1)
        \<and> fs_log (snd r2) = fs_log (snd r1) @ [Exists (path_join FILES_DIR key)]))"
proof (intro conjI impI)
  assume e: "pick_ext u1 = pick_ext u2"
  define key where "key = digest (up_raw u1) @ ''.'' @ pick_ext u1"
  define r1 where "r1 = upload_voice digest rq1 u1 room1 fp1 lbl1 st"
  define r2 where "r2 = upload_voice digest rq2 u2 room2 fp2 lbl2 (snd r1)"
  have k2: "digest (up_raw u2) @ ''.'' @ pick_ext u2 = key"
    using assms e by (simp add: key_def)
  have f1: "files (snd r1) = files (snd (put_blob AUDIO_DIR key (up_raw u1) st))
          \<and> dirs (snd r1) = dirs (snd (put_blob AUDIO_DIR key (up_raw u1) st))"
    using upload_voice_fs [OF assms(2), of digest rq1 room1 fp1 lbl1 st]
    by (simp add: r1_def key_def)
  have n2: "up_raw u2 \<noteq> []" using assms by simp
  have f2: "files (snd r2) = files (snd (put_blob AUDIO_DIR key (up_raw u2) (snd r1)))
          \<and> fs_log (snd r2) = fs_log (snd (put_blob AUDIO_DIR key (up_raw u2) (snd r1)))"
    using upload_voice_fs [OF n2, of digest rq2 room2 fp2 lbl2 "snd r1"] k2
    by (simp add: r2_def)
  have tw: "files (snd (put_blob AUDIO_DIR key (up_raw u2) (snd r1))) = files (snd r1)
          \<and> fs_log (snd (put_blob AUDIO_DIR key (up_raw u2) (snd r1)))
              = fs_log (snd r1) @ [Exists (path_join AUDIO_DIR key)]"
    using put_blob_twice [of "snd r1" AUDIO_DIR key "up_raw u1" st "up_raw u2"] f1 by simp
  have ka: "\<forall>i k. fst r1 = Inr (i, k) \<longrightarrow> k = key"
    using upload_voice_key [of digest rq1 u1 room1 fp1 lbl1 st] by (auto simp: r1_def key_def)
  have kb: "\<forall>i k. fst r2 = Inr (i, k) \<longrightarrow> k = key"
    using upload_voice_key [of digest rq2 u2 room2 fp2 lbl2 "snd r1"] k2 by (auto simp: r2_def)
  show "let key = digest (up_raw u1) @ ''.'' @ pick_ext u1;
           r1 = upload_voice digest rq1 u1 room1 fp1 lbl1 st;
           r2 = upload_voice digest rq2 u2 room2 fp2 lbl2 (snd r1)
       in (\<forall>i k. fst r1 = Inr (i, k) \<longrightarrow> k = key)
        \<and> (\<forall>i k. fst r2 = Inr (i, k) \<longrightarrow> k = key)
        \<and> files (snd r2) = files (snd r1)
        \<and> fs_log (snd r2) = fs_log (snd r1) @ [Exists (path_join AUDIO_DIR key)]"
    using ka kb f2 tw unfolding Let_def key_def [symmetric] r1_def [symmetric] r2_def [symmetric]
    by simp
next
  assume e: "pick_ext_from_upload ge ps u1 = pick_ext_from_upload ge ps u2"
  define key where "key = digest (up_raw u1) @ ''.'' @ pick_ext_from_upload ge ps u1"
  define r1 where "r1 = upload_blob digest ge ps rq1 u1 room1 fp1 lbl1 st"
  define r2 where "r2 = upload_blob digest ge ps rq2 u2 room2 fp2 lbl2 (snd r1)"
  have k2: "digest (up_raw u2) @ ''.'' @ pick_ext_from_upload ge ps u2 = key"
    using assms e by (simp add: key_def)
  have f1: "files (snd r1) = files (snd (put_blob FILES_DIR key (up_raw u1) st))
          \<and> dirs (snd r1) = dirs (snd (put_blob FILES_DIR key (up_raw u1) st))"
    using upload_blob_fs [OF assms(2), of digest ge ps rq1 room1 fp1 lbl1 st]
    by (simp add: r1_def key_def)
  have n2: "up_raw u2 \<noteq> []" using assms by simp
  have f2: "files (snd r2) = files (snd (put_blob FILES_DIR key (up_raw u2) (snd r1)))
          \<and> fs_log (snd r2) = fs_log (snd (put_blob FILES_DIR key (up_raw u2) (snd r1)))"
    using upload_blob_fs [OF n2, of digest ge ps rq2 room2 fp2 lbl2 "snd r1"] k2
    by (simp add: r2_def)
  have tw: "files (snd (put_blob FILES_DIR key (up_raw u2) (snd r1))) = files (snd r1)
          \<and> fs_log (snd (put_blob FILES_DIR key (up_raw u2) (snd r1)))
              = fs_log (snd r1) @ [Exists (path_join FILES_DIR key)]"
    using put_blob_twice [of "snd r1" FILES_DIR key "up_raw u1" st "up_raw u2"] f1 by simp
  have ka: "\<forall>i k c. fst r1 = Inr (i, k, c) \<longrightarrow> k = key"
    using upload_blob_key [of digest ge ps rq1 u1 room1 fp1 lbl1 st]
    by (auto simp: r1_def key_def)
  have kb: "\<forall>i k c. fst r2 = Inr (i, k, c) \<longrightarrow> k = key"
    using upload_blob_key [of digest ge ps rq2 u2 room2 fp2 lbl2 "snd r1"] k2
    by (auto simp: r2_def)
  show "let key = digest (up_raw u1) @ ''.'' @ pick_ext_from_upload ge ps u1;
           r1 = upload_blob digest ge ps rq1 u1 room1 fp1 lbl1 st;
           r2 = upload_blob digest ge ps rq2 u2 room2 fp2 lbl2 (snd r1)
       in (\<forall>i k c. fst r1 = Inr (i, k, c) \<longrightarrow> k = key)
        \<and> (\<forall>i k c. fst r2 = Inr (i, k, c) \<longrightarrow> k = key)
        \<and> files (snd r2) = files (snd r1)
        \<and> fs_log (snd r2) = fs_log (snd r1) @ [Exists (path_join FILES_DIR key)]"
    using ka kb f2 tw unfolding Let_def key_def [symmetric] r1_def [symmetric] r2_def [symmetric]
    by simp
qed

lemma pick_ext_voice_note: "pick_ext voice_note = ''ogg''"
  by code_simp

lemma pick_ext_picture:
  "pick_ext_from_upload (\<lambda>ct. if ct = ''image/png'' then Some ''.png'' else None) (\<lambda>n. []) picture = ''png''"
  by code_simp

lemma short_names:
  "\<not> name_too_long ''data/audio/RIFF.ogg''" "\<not> name_too_long ''data/audio/RIFF.webm''"
  "\<not> name_too_long ''data/files/PNG.png''"
  by code_simp+

lemma classify_picture: "classify_content_type (Some ''image/png'') = ''image''"
  by code_simp

theorem content_store_put_idempotent_witness:
  "up_raw voice_note = up_raw voice_note \<and> up_raw voice_note \<noteq> []
   \<and> fst (upload_voice toy_digest lan_rq voice_note ''alpha'' (Some ''A'') None alpha_hub)
        = Inr (1, ''RIFF.ogg'')
   \<and> fs_log (snd (upload_voice toy_digest lan_rq voice_note ''alpha'' (Some ''A'') None alpha_hub))
        = [Exists ''data/audio/RIFF.ogg'', Write_bytes ''data/audio/RIFF.ogg'']
   \<and> fst (upload_voice toy_digest lan_rq voice_note ''alpha'' (Some ''A'') None
             (snd (upload_voice toy_digest lan_rq voice_note ''alpha'' (Some ''A'') None alpha_hub)))
        = Inr (2, ''RIFF.ogg'')
   \<and> fs_log (snd (upload_voice toy_digest lan_rq voice_note ''alpha'' (Some ''A'') None
             (snd (upload_voice toy_digest lan_rq voice_note ''alpha'' (Some ''A'') None alpha_hub))))
        = [Exists ''data/audio/RIFF.ogg'', Write_bytes ''data/audio/RIFF.ogg'',
           Exists ''data/audio/RIFF.ogg'']
   \<and> fst (upload_blob toy_digest (\<lambda>ct. if ct = ''image/png'' then Some ''.png'' else None)
             (\<lambda>n. []) lan_rq picture ''alpha'' (Some ''A'') None alpha_hub)
        = Inr (1, ''PNG.png'', ''image'')"
  using content_store_put_idempotent [where ?u1.0 = voice_note and ?u2.0 = voice_note
      and digest = toy_digest and ?rq1.0 = lan_rq and ?rq2.0 = lan_rq
      and ?room1.0 = "''alpha''" and ?room2.0 = "''alpha''"
      and ?fp1.0 = "Some ''A''" and ?fp2.0 = "Some ''A''" and ?lbl1.0 = None and ?lbl2.0 = None
      and st = alpha_hub]
  by (simp add: upload_voice_def upload_blob_def put_blob_def path_exists_def write_bytes_def
      short_names
      path_join_def AUDIO_DIR_def FILES_DIR_def toy_digest_def pick_ext_voice_note pick_ext_picture
      classify_picture
      voice_note_def [THEN arg_cong [where f = up_raw]]
      picture_def [THEN arg_cong [where f = up_raw]]
      picture_def [THEN arg_cong [where f = up_content_type]]
      picture_def [THEN arg_cong [where f = up_filename]]
      ensure_room_def upsert_device_def add_message_def db_commit_def next_id_def
      broadcast_room_eq clients_def touch_device_def truthy_def py_or_def fingerprint_taken_def
      resolve_ip_def msg_payload_def Let_def lan_rq_def alpha_hub_def phone_db_def)

text \<open>The same bytes declared as \<^verbatim>\<open>audio/ogg\<close> and then as \<^verbatim>\<open>audio/webm\<close>: the two
  uploads are answered with two different keys, and the second one writes its file.\<close>

lemma pick_ext_notes: "pick_ext ogg_note = ''ogg''" "pick_ext webm_note = ''webm''"
  by code_simp+

theorem content_store_two_declared_types:
  "up_raw ogg_note = up_raw webm_note
   \<and> fst (upload_voice toy_digest lan_rq ogg_note ''alpha'' (Some ''A'') None alpha_hub)
        = Inr (1, ''RIFF.ogg'')
   \<and> fst (upload_voice toy_digest lan_rq webm_note ''alpha'' (Some ''A'') None
             (snd (upload_voice toy_digest lan_rq ogg_note ''alpha'' (Some ''A'') None alpha_hub)))
        = Inr (2, ''RIFF.webm'')
   \<and> fs_log (snd (upload_voice toy_digest lan_rq webm_note ''alpha'' (Some ''A'') None
             (snd (upload_voice toy_digest lan_rq ogg_note ''alpha'' (Some ''A'') None alpha_hub))))
        = [Exists ''data/audio/RIFF.ogg'', Write_bytes ''data/audio/RIFF.ogg'',
           Exists ''data/audio/RIFF.webm'', Write_bytes ''data/audio/RIFF.webm'']"
  by (simp add: upload_voice_def put_blob_def path_exists_def write_bytes_def short_names
      path_join_def AUDIO_DIR_def FILES_DIR_def toy_digest_def pick_ext_notes
      ogg_note_def [THEN arg_cong [where f = up_raw]]
      webm_note_def [THEN arg_cong [where f = up_raw]]
      ensure_room_def upsert_device_def add_message_def db_commit_def next_id_def
      broadcast_room_eq clients_def touch_device_def truthy_def py_or_def fingerprint_taken_def
      resolve_ip_def msg_payload_def Let_def lan_rq_def alpha_hub_def phone_db_def)

end
